theory Spec2Isabelle
  imports Main "HOL-Library.Word"
begin

text \<open>
  A model of \<open>src/index.ts\<close> of nodejs-lsd-logger, the logger that appends messages to
  minute-bucketed files for the LSD streaming daemon: the bucket name (\<open>getFileName\<close>),
  the two writers and \<open>writeData\<close>, the retry queue with its timer
  (\<open>tryToWriteStoredData\<close>) and the public \<open>writeLog\<close>. Every function of the source
  is a function of the same name here, on an explicit state of the process; what the
  file system and the clock answer is an argument.
\<close>

section \<open>Strings and number formatting\<close>

text \<open>
  A JavaScript string is a sequence of UTF-16 code units and \<open>message.length\<close> counts
  them, so the payload of a log message is a list of 16-bit words. Paths, file names and
  error texts are only concatenated, never measured, and are kept as HOL strings.
\<close>

type_synonym jsstring = "16 word list"

definition EOL :: jsstring where
  \<comment> \<open>\<open>os.EOL\<close> on a POSIX system (\<open>flock\<close> is POSIX only).\<close>
  "EOL = [10]"

definition dq :: string where
  \<comment> \<open>the double quote that the source's template literals put around paths and errors\<close>
  "dq = [CHR 0x22]"

definition isHighSurrogate :: "16 word \<Rightarrow> bool" where
  "isHighSurrogate c = (0xD800 \<le> c \<and> c \<le> 0xDBFF)"

definition isLowSurrogate :: "16 word \<Rightarrow> bool" where
  "isLowSurrogate c = (0xDC00 \<le> c \<and> c \<le> 0xDFFF)"

definition unitBytes :: "16 word \<Rightarrow> nat" where
  \<comment> \<open>UTF-8 bytes of one code unit standing alone (a lone surrogate is written as U+FFFD)\<close>
  "unitBytes c = (if c < 0x80 then 1 else if c < 0x800 then 2 else 3)"

fun utf8Length :: "jsstring \<Rightarrow> nat" where
  \<comment> \<open>the number of bytes \<open>stream.write\<close> and \<open>FileHandle.write\<close> put on disk for a
      string (their default encoding is \<open>utf8\<close>); a surrogate pair is one 4-byte character\<close>
  "utf8Length [] = 0"
| "utf8Length [c] = unitBytes c"
| "utf8Length (c # d # cs) =
     (if isHighSurrogate c \<and> isLowSurrogate d then 4 + utf8Length cs
      else unitBytes c + utf8Length (d # cs))"

definition digitChar :: "nat \<Rightarrow> char" where
  "digitChar d = ''0123456789'' ! d"

fun show_nat :: "nat \<Rightarrow> string" where
  \<comment> \<open>decimal digits of a number, no padding\<close>
  "show_nat n =
     (if n < 10 then [digitChar n] else show_nat (n div 10) @ [digitChar (n mod 10)])"

declare show_nat.simps [simp del]

definition twoDigit :: "nat \<Rightarrow> string" where
  \<comment> \<open>what \<open>Intl.DateTimeFormat\<close> prints for a field asked as \<open>'2-digit'\<close>\<close>
  "twoDigit n = (if n < 10 then CHR ''0'' # show_nat n else show_nat n)"

definition padStart :: "nat \<Rightarrow> string \<Rightarrow> string \<Rightarrow> string" where
  \<comment> \<open>\<open>String.prototype.padStart\<close>\<close>
  "padStart targetLength padString str =
     (if targetLength \<le> length str \<or> padString = [] then str
      else take (targetLength - length str)
             (concat (replicate (targetLength - length str) padString)) @ str)"

section \<open>Time Bucketer: \<open>getFileName\<close>\<close>

text \<open>
  \<open>getFileName\<close> reads \<open>new Date()\<close> and prints five of its local calendar fields with
  \<open>Intl.DateTimeFormat('en', ...)\<close>. The model takes the clock reading as its argument:
  the calendar fields of the local time. The month is the calendar month (1 to 12).
\<close>

record datetime =
  calYear :: nat
  calMonth :: nat
  calDay :: nat
  calHour :: nat
  calMinute :: nat
  calSecond :: nat

definition wallClock :: "datetime \<Rightarrow> bool" where
  \<comment> \<open>the field ranges of a calendar time\<close>
  "wallClock t =
     (1 \<le> calYear t \<and> 1 \<le> calMonth t \<and> calMonth t \<le> 12 \<and> 1 \<le> calDay t \<and> calDay t \<le> 31
      \<and> calHour t < 24 \<and> calMinute t < 60 \<and> calSecond t < 60)"

definition sameMinute :: "datetime \<Rightarrow> datetime \<Rightarrow> bool" where
  \<comment> \<open>two clock readings within one calendar minute: they differ in the seconds only\<close>
  "sameMinute a b =
     (calYear a = calYear b \<and> calMonth a = calMonth b \<and> calDay a = calDay b
      \<and> calHour a = calHour b \<and> calMinute a = calMinute b)"

text \<open>
  With \<open>hour12: false\<close> the platform resolves the hour cycle of locale \<open>en\<close> either to
  \<open>h23\<close> (midnight is hour 00) or, on engines that follow the older ECMA-402 rule, to
  \<open>h24\<close> (midnight is hour 24). The source does not choose; the model takes the
  cycle as a parameter.
\<close>

datatype hourCycle = H23 | H24

definition shownHour :: "hourCycle \<Rightarrow> nat \<Rightarrow> nat" where
  "shownHour hc h = (case hc of H23 \<Rightarrow> h | H24 \<Rightarrow> (if h = 0 then 24 else h))"

definition formatYear :: "datetime \<Rightarrow> string" where
  \<comment> \<open>\<open>{ year: 'numeric' }\<close>: the year's digits, as many as it has\<close>
  "formatYear now = show_nat (calYear now)"

definition formatMonth :: "datetime \<Rightarrow> string" where
  \<comment> \<open>\<open>{ month: '2-digit' }\<close>\<close>
  "formatMonth now = twoDigit (calMonth now)"

definition formatDay :: "datetime \<Rightarrow> string" where
  \<comment> \<open>\<open>{ day: '2-digit' }\<close>\<close>
  "formatDay now = twoDigit (calDay now)"

definition formatHour :: "hourCycle \<Rightarrow> datetime \<Rightarrow> string" where
  \<comment> \<open>\<open>{ hour: '2-digit', hour12: false }\<close>\<close>
  "formatHour hc now = twoDigit (shownHour hc (calHour now))"

definition formatMinute :: "datetime \<Rightarrow> string" where
  \<comment> \<open>\<open>{ minute: '2-digit' }\<close>: a minute asked for alone is printed without padding,
      which is why the source pads it itself\<close>
  "formatMinute now = show_nat (calMinute now)"

definition getFileName :: "hourCycle \<Rightarrow> datetime \<Rightarrow> string" where
  "getFileName hc now =
     (let year = formatYear now;
          month = formatMonth now;
          day = formatDay now;
          hour = formatHour hc now;
          minute = padStart 2 ''0'' (formatMinute now)
      in year @ month @ day @ hour @ minute @ ''00'')"

definition bucketName :: "datetime \<Rightarrow> string" where
  \<comment> \<open>the spec's format \<open>YYYYMMDDhhmm00\<close>, digit by digit, read off the clock's own
      fields (the hour is the 24-hour hour, 00 to 23): the text to compare
      \<open>getFileName\<close> with\<close>
  "bucketName t =
     [digitChar (calYear t div 1000), digitChar (calYear t div 100 mod 10),
      digitChar (calYear t div 10 mod 10), digitChar (calYear t mod 10),
      digitChar (calMonth t div 10), digitChar (calMonth t mod 10),
      digitChar (calDay t div 10), digitChar (calDay t mod 10),
      digitChar (calHour t div 10), digitChar (calHour t mod 10),
      digitChar (calMinute t div 10), digitChar (calMinute t mod 10),
      CHR ''0'', CHR ''0'']"

section \<open>Messages, errors and the process state\<close>

datatype ERRORS = FILE_LOCKED

record IMessage =
  filePath :: string
  message :: jsstring
  isLargeData :: bool

definition MAX_MESSAGE_SIZE :: nat where
  "MAX_MESSAGE_SIZE = 4096"

definition FILE_PERMISSION :: nat where
  \<comment> \<open>\<open>0o666\<close>\<close>
  "FILE_PERMISSION = 438"

record LogException =
  errMessage :: string
  code :: "ERRORS option"

text \<open>
  The calls the module makes on the operating system and on its promises, in the order
  it makes them. \<open>EvResolve\<close> and \<open>EvReject\<close> are the calls of a promise's \<open>resolve\<close>
  and \<open>reject\<close>.
\<close>

datatype flockMode = FlockExnb | FlockUn

datatype event =
    EvUmask nat
  | EvAccess string
  | EvMkdir string nat
  | EvChmod string nat
  | EvCreateWriteStream string nat
  | EvStreamWrite jsstring
  | EvStreamEnd
  | EvOpen string nat
  | EvFlock nat flockMode
  | EvWrite nat jsstring
  | EvClose nat
  | EvResolve
  | EvReject LogException

datatype diag =
    WritingWarning string
  | RepeatWriteWarning string

text \<open>
  The state the module works on: the process's file-creation mask, the file handles
  that are open, the calls made so far, the diagnostics printed with \<open>console.error\<close>,
  the module's two variables \<open>STORED_MESSAGES\<close> and \<open>repeatTimer\<close>, and the timers
  pending in the event loop, each with its delay.
\<close>

record world =
  umaskOf :: nat
  openHandles :: "nat list"
  nextFd :: nat
  trace :: "event list"
  console :: "diag list"
  STORED_MESSAGES :: "IMessage list"
  repeatTimer :: "nat option"
  timers :: "(nat \<times> nat) list"
  nextTimer :: nat

text \<open>
  What the file system answers to one write attempt: an error text where a call fails.
  The module cannot influence it; every function that writes takes it as an argument.
\<close>

record fsOutcome =
  openError :: "string option"
  lockError :: bool
  writeError :: "string option"
  unlockError :: bool
  streamError :: "string option"

definition emit :: "event \<Rightarrow> world \<Rightarrow> world" where
  "emit e s = s\<lparr>trace := trace s @ [e]\<rparr>"

definition console_error :: "diag \<Rightarrow> world \<Rightarrow> world" where
  "console_error d s = s\<lparr>console := console s @ [d]\<rparr>"

definition process_umask :: "nat \<Rightarrow> world \<Rightarrow> nat \<times> world" where
  \<comment> \<open>\<open>process.umask(m)\<close> sets the mask and returns the one before\<close>
  "process_umask m s = (umaskOf s, emit (EvUmask m) (s\<lparr>umaskOf := m\<rparr>))"

definition fs_open :: "fsOutcome \<Rightarrow> string \<Rightarrow> nat \<Rightarrow> world \<Rightarrow> (string + nat) \<times> world" where
  \<comment> \<open>\<open>fs.promises.open(path, 'a', mode)\<close>: the error, or a new handle\<close>
  "fs_open out path mode s =
     (case openError out of
        Some err \<Rightarrow> (Inl err, emit (EvOpen path mode) s)
      | None \<Rightarrow>
          (Inr (nextFd s),
           emit (EvOpen path mode)
             (s\<lparr>openHandles := nextFd s # openHandles s, nextFd := Suc (nextFd s)\<rparr>)))"

definition fh_close :: "nat \<Rightarrow> world \<Rightarrow> world" where
  \<comment> \<open>\<open>FileHandle.close()\<close>; closing a closed handle changes nothing\<close>
  "fh_close fd s = emit (EvClose fd) (s\<lparr>openHandles := removeAll fd (openHandles s)\<rparr>)"

definition flock :: "fsOutcome \<Rightarrow> nat \<Rightarrow> flockMode \<Rightarrow> world \<Rightarrow> bool \<times> world" where
  \<comment> \<open>\<open>flock(fd, mode, callback)\<close>: whether the callback gets an error. On a handle
      that is closed the call fails.\<close>
  "flock out fd mode s =
     ((if fd \<in> set (openHandles s)
       then (case mode of FlockExnb \<Rightarrow> lockError out | FlockUn \<Rightarrow> unlockError out)
       else True),
      emit (EvFlock fd mode) s)"

definition fh_write :: "fsOutcome \<Rightarrow> nat \<Rightarrow> jsstring \<Rightarrow> world \<Rightarrow> string option \<times> world" where
  \<comment> \<open>\<open>FileHandle.write(data)\<close>: the error, if it rejects\<close>
  "fh_write out fd data s = (writeError out, emit (EvWrite fd data) s)"

text \<open>
  A promise under construction is \<open>None\<close> while it is pending and keeps the first
  result it is settled with: later calls of \<open>resolve\<close> and \<open>reject\<close> change nothing.
\<close>

type_synonym 'a promise = "(LogException + 'a) option"

definition resolve :: "'a \<Rightarrow> 'a promise \<times> world \<Rightarrow> 'a promise \<times> world" where
  "resolve v ps =
     ((case fst ps of None \<Rightarrow> Some (Inr v) | Some r \<Rightarrow> Some r), emit EvResolve (snd ps))"

definition reject :: "LogException \<Rightarrow> 'a promise \<times> world \<Rightarrow> 'a promise \<times> world" where
  "reject e ps =
     ((case fst ps of None \<Rightarrow> Some (Inl e) | Some r \<Rightarrow> Some r), emit (EvReject e) (snd ps))"

section \<open>Writer: \<open>writeToFile\<close>, \<open>writeToFileWithLock\<close>, \<open>writeData\<close>\<close>

definition writeToFile :: "fsOutcome \<Rightarrow> string \<Rightarrow> jsstring \<Rightarrow> world \<Rightarrow> bool promise \<times> world" where
  "writeToFile out path msg s =
     (let s1 = emit (EvCreateWriteStream path FILE_PERMISSION) s;
          s2 = emit (EvStreamWrite (msg @ EOL)) s1;
          s3 = emit EvStreamEnd s2
      in case streamError out of
           None \<Rightarrow> resolve True (None, s3)
         | Some err \<Rightarrow>
             reject \<lparr>errMessage = ''Can no write to file '' @ path @ ''. Error: '' @ dq @ err @ dq,
                     code = None\<rparr> (None, s3))"

definition writeToFileWithLock ::
  "fsOutcome \<Rightarrow> string \<Rightarrow> jsstring \<Rightarrow> world \<Rightarrow> bool promise \<times> world" where
  "writeToFileWithLock out path msg s =
     (case fs_open out path FILE_PERMISSION s of
        (Inl error, s1) \<Rightarrow>
          reject \<lparr>errMessage = ''Can not open file. Error: '' @ dq @ error @ dq, code = None\<rparr>
            (None, s1)
      | (Inr openFile, s1) \<Rightarrow>
          (case flock out openFile FlockExnb s1 of
             (err, s2) \<Rightarrow>
               if err then
                 reject \<lparr>errMessage = ''Can no lock file '' @ dq @ path @ dq,
                         code = Some FILE_LOCKED\<rparr>
                   (None, fh_close openFile s2)
               else
                 (let ps3 =
                        (case fh_write out openFile (msg @ EOL) s2 of
                           (None, s3) \<Rightarrow> (None, s3)
                         | (Some error, s3) \<Rightarrow>
                             reject \<lparr>errMessage = ''Can not write to file '' @ dq @ path @ dq
                                       @ ''. Error: '' @ error, code = None\<rparr>
                               (None, snd (flock out openFile FlockUn (fh_close openFile s3))))
                  in case flock out openFile FlockUn (snd ps3) of
                       (err', s4) \<Rightarrow>
                         if err' then
                           reject \<lparr>errMessage = ''Couldn't unlock file '' @ dq @ path @ dq,
                                   code = None\<rparr>
                             (fst ps3, fh_close openFile s4)
                         else resolve True (fst ps3, fh_close openFile s4))))"

definition writeData :: "fsOutcome \<Rightarrow> IMessage \<Rightarrow> world \<Rightarrow> unit promise \<times> world" where
  \<comment> \<open>the mask is restored by the statement after the \<open>await\<close>, which a rejected write
      never reaches\<close>
  "writeData out m s =
     (case process_umask 0 s of
        (oldMask, s1) \<Rightarrow>
          (case (if isLargeData m then writeToFileWithLock out (filePath m) (message m) s1
                 else writeToFile out (filePath m) (message m) s1) of
             (None, s2) \<Rightarrow> (None, s2)
           | (Some (Inl e), s2) \<Rightarrow> (Some (Inl e), s2)
           | (Some (Inr ok), s2) \<Rightarrow> (Some (Inr ()), snd (process_umask oldMask s2))))"

section \<open>Retry Queue: \<open>tryToWriteStoredData\<close> and its timer callback\<close>

definition clearInterval :: "nat option \<Rightarrow> world \<Rightarrow> world" where
  \<comment> \<open>cancels the timer if it is pending; \<open>clearInterval(undefined)\<close> does nothing\<close>
  "clearInterval h s =
     (case h of None \<Rightarrow> s | Some t \<Rightarrow> s\<lparr>timers := filter (\<lambda>p. fst p \<noteq> t) (timers s)\<rparr>)"

definition setTimeout :: "nat \<Rightarrow> world \<Rightarrow> nat \<times> world" where
  \<comment> \<open>a new pending timer; every timer of the module runs the same callback\<close>
  "setTimeout delay s =
     (nextTimer s,
      s\<lparr>timers := timers s @ [(nextTimer s, delay)], nextTimer := Suc (nextTimer s)\<rparr>)"

definition tryToWriteStoredData :: "world \<Rightarrow> world" where
  "tryToWriteStoredData s =
     (if STORED_MESSAGES s = [] then (clearInterval (repeatTimer s) s)\<lparr>repeatTimer := None\<rparr>
      else if repeatTimer s \<noteq> None then s
      else (case setTimeout 100 s of (t, s1) \<Rightarrow> s1\<lparr>repeatTimer := Some t\<rparr>))"

definition enqueue :: "IMessage \<Rightarrow> world \<Rightarrow> world" where
  \<comment> \<open>\<open>STORED_MESSAGES.push(logMessageData); tryToWriteStoredData()\<close>\<close>
  "enqueue m s = tryToWriteStoredData (s\<lparr>STORED_MESSAGES := STORED_MESSAGES s @ [m]\<rparr>)"

definition retryBegin :: "world \<Rightarrow> IMessage option \<times> world" where
  \<comment> \<open>the timer callback up to its \<open>await\<close>: clear the handle, shift the queue\<close>
  "retryBegin s =
     (let s1 = (clearInterval (repeatTimer s) s)\<lparr>repeatTimer := None\<rparr>
      in case STORED_MESSAGES s1 of
           [] \<Rightarrow> (None, s1)
         | d # rest \<Rightarrow> (Some d, s1\<lparr>STORED_MESSAGES := rest\<rparr>))"

definition retryEnd :: "IMessage \<Rightarrow> unit promise \<Rightarrow> world \<Rightarrow> world" where
  \<comment> \<open>the timer callback after its \<open>await\<close>, given how the write settled; the
      \<open>catch\<close> does not look at the error\<close>
  "retryEnd d r s =
     (case r of
        None \<Rightarrow> s
      | Some res \<Rightarrow>
          (let s1 = (case res of
                       Inr ok \<Rightarrow> s
                     | Inl error \<Rightarrow>
                         (console_error (RepeatWriteWarning (filePath d)) s)
                           \<lparr>STORED_MESSAGES := d # STORED_MESSAGES s\<rparr>)
           in if STORED_MESSAGES s1 \<noteq> [] then tryToWriteStoredData s1 else s1))"

definition retryCallback :: "fsOutcome \<Rightarrow> world \<Rightarrow> world" where
  \<comment> \<open>the whole callback when nothing else runs during its \<open>await\<close>\<close>
  "retryCallback out s =
     (case retryBegin s of
        (None, s1) \<Rightarrow> s1
      | (Some d, s1) \<Rightarrow> (case writeData out d s1 of (r, s2) \<Rightarrow> retryEnd d r s2))"

definition expire :: "nat \<Rightarrow> world \<Rightarrow> world" where
  \<comment> \<open>the event loop takes an expired timer off its list before it runs the callback\<close>
  "expire t s = s\<lparr>timers := filter (\<lambda>p. fst p \<noteq> t) (timers s)\<rparr>"

definition pending :: "nat \<Rightarrow> world \<Rightarrow> bool" where
  "pending t s = (t \<in> fst ` set (timers s))"

definition fireTimer :: "fsOutcome \<Rightarrow> nat \<Rightarrow> world \<Rightarrow> world" where
  \<comment> \<open>one retry tick: timer \<open>t\<close> expires and its callback runs to the end\<close>
  "fireTimer out t s = (if pending t s then retryCallback out (expire t s) else s)"

section \<open>Public API: \<open>writeLog\<close>\<close>

datatype accessResult = AccessOk | AccessENOENT | AccessFailed string

record env =
  accessRes :: accessResult
  mkdirError :: "string option"
  clock :: datetime
  hourCycleOf :: hourCycle
  fsRes :: fsOutcome

definition ensureDirectory :: "env \<Rightarrow> string \<Rightarrow> world \<Rightarrow> string option \<times> world" where
  \<comment> \<open>the first \<open>try\<close> of \<open>writeLog\<close>: the text of the \<open>Error\<close> it throws, if any\<close>
  "ensureDirectory e dirPath s =
     (case accessRes e of
        AccessOk \<Rightarrow> (None, emit (EvAccess dirPath) s)
      | AccessENOENT \<Rightarrow>
          (case mkdirError e of
             None \<Rightarrow>
               (None, emit (EvChmod dirPath 511) (emit (EvMkdir dirPath 511)
                        (emit (EvAccess dirPath) s)))
           | Some mkdirErr \<Rightarrow>
               (Some (''Can not create folder '' @ dq @ dirPath @ dq @ ''. Error '' @ mkdirErr),
                emit (EvMkdir dirPath 511) (emit (EvAccess dirPath) s)))
      | AccessFailed fileError \<Rightarrow>
          (Some (''Not enough permissions to create path '' @ dq @ dirPath @ dq
                 @ ''. Error: '' @ fileError),
           emit (EvAccess dirPath) s))"

definition logMessageData :: "string \<Rightarrow> string \<Rightarrow> jsstring \<Rightarrow> IMessage" where
  \<comment> \<open>lines 58 to 71 of \<open>writeLog\<close>, given what \<open>getFileName()\<close> returned\<close>
  "logMessageData dirPath fileName0 msg =
     (case (if length msg > MAX_MESSAGE_SIZE then (fileName0 @ ''_big'', True)
            else (fileName0, False)) of
        (fileName, large) \<Rightarrow>
          \<lparr>filePath = dirPath @ ''/'' @ fileName @ ''.log'', message = msg, isLargeData = large\<rparr>)"

definition writeLog ::
  "env \<Rightarrow> string \<Rightarrow> jsstring \<Rightarrow> world \<Rightarrow> (string + unit) option \<times> world" where
  \<comment> \<open>the result is the text of the \<open>Error\<close> the call rejects with, or \<open>()\<close>\<close>
  "writeLog e dirPath msg s =
     (case ensureDirectory e dirPath s of
        (Some err, s1) \<Rightarrow> (Some (Inl err), s1)
      | (None, s1) \<Rightarrow>
          (let m = logMessageData dirPath (getFileName (hourCycleOf e) (clock e)) msg
           in case writeData (fsRes e) m s1 of
                (None, s2) \<Rightarrow> (None, s2)
              | (Some (Inr ok), s2) \<Rightarrow> (Some (Inr ()), s2)
              | (Some (Inl logError), s2) \<Rightarrow>
                  if code logError = Some FILE_LOCKED then
                    (Some (Inr ()),
                     enqueue m (console_error (WritingWarning (filePath m)) s2))
                  else (Some (Inl (errMessage logError)), s2)))"

section \<open>Runs of the module\<close>

text \<open>
  The module runs on one thread, and other calls run while a write is awaited. A run is
  a sequence of the three things that touch the queue and the timer: a call of
  \<open>writeLog\<close> reaching its end, a pending timer expiring (the callback runs up to its
  \<open>await\<close>; the message it shifted is in flight), and the write of a message in flight
  settling (the callback runs to its end). A step that cannot happen in the state it
  meets (the timer is not pending, the message is not in flight) changes nothing.
  Between two \<open>await\<close>s the code runs without interruption, and \<open>writeLog\<close> and
  \<open>writeData\<close> touch the queue and the timer only in the block after the awaited
  write, so a step applies the effects of a write at the moment it settles.
\<close>

datatype action =
    Submit env string jsstring
  | Expire nat
  | Settle IMessage fsOutcome

fun step :: "world \<times> IMessage list \<Rightarrow> action \<Rightarrow> world \<times> IMessage list" where
  "step (s, fl) (Submit e dirPath msg) = (snd (writeLog e dirPath msg s), fl)"
| "step (s, fl) (Expire t) =
     (if pending t s then
        (case retryBegin (expire t s) of
           (None, s1) \<Rightarrow> (s1, fl)
         | (Some d, s1) \<Rightarrow> (s1, d # fl))
      else (s, fl))"
| "step (s, fl) (Settle d out) =
     (if d \<in> set fl then
        (case writeData out d s of (r, s1) \<Rightarrow> (retryEnd d r s1, remove1 d fl))
      else (s, fl))"

definition initWorld :: "nat \<Rightarrow> world" where
  \<comment> \<open>the module just loaded, in a process with the given mask\<close>
  "initWorld u =
     \<lparr>umaskOf = u, openHandles = [], nextFd = 3, trace = [], console = [],
      STORED_MESSAGES = [], repeatTimer = None, timers = [], nextTimer = 1\<rparr>"

definition run :: "action list \<Rightarrow> nat \<Rightarrow> world \<times> IMessage list" where
  "run acts u = foldl step (initWorld u, []) acts"

definition timerInv :: "world \<Rightarrow> bool" where
  \<comment> \<open>the pending timers are exactly the one \<open>repeatTimer\<close> holds, set for 100, and a
      timer is pending only while messages are stored\<close>
  "timerInv s =
     (timers s = (case repeatTimer s of None \<Rightarrow> [] | Some t \<Rightarrow> [(t, 100)])
      \<and> (repeatTimer s = None \<or> STORED_MESSAGES s \<noteq> []))"

section \<open>Reading the record of calls\<close>

definition newEvents :: "world \<Rightarrow> world \<Rightarrow> event list" where
  \<comment> \<open>the calls made between an earlier state and a later one\<close>
  "newEvents s s' = drop (length (trace s)) (trace s')"

definition isFlockCall :: "event \<Rightarrow> bool" where
  "isFlockCall e = (case e of EvFlock fd mode \<Rightarrow> True | _ \<Rightarrow> False)"

definition isStreamCall :: "event \<Rightarrow> bool" where
  "isStreamCall e =
     (case e of EvCreateWriteStream path mode \<Rightarrow> True | EvStreamWrite d \<Rightarrow> True
      | EvStreamEnd \<Rightarrow> True | _ \<Rightarrow> False)"

definition isWriteCall :: "event \<Rightarrow> bool" where
  "isWriteCall e = (case e of EvWrite fd d \<Rightarrow> True | _ \<Rightarrow> False)"

definition isSettleCall :: "event \<Rightarrow> bool" where
  "isSettleCall e = (case e of EvResolve \<Rightarrow> True | EvReject x \<Rightarrow> True | _ \<Rightarrow> False)"

definition beforeSettle :: "event list \<Rightarrow> event list" where
  \<comment> \<open>the calls made before the promise is settled\<close>
  "beforeSettle tr = takeWhile (\<lambda>e. \<not> isSettleCall e) tr"

definition isDigit :: "char \<Rightarrow> bool" where
  "isDigit c = (c \<in> set ''0123456789'')"

section \<open>Sample inputs\<close>

definition fsOk :: fsOutcome where
  "fsOk = \<lparr>openError = None, lockError = False, writeError = None, unlockError = False,
           streamError = None\<rparr>"

definition fsLocked :: fsOutcome where
  \<comment> \<open>another writer holds the lock\<close>
  "fsLocked = fsOk\<lparr>lockError := True\<rparr>"

definition fsOpenFails :: fsOutcome where
  "fsOpenFails = fsOk\<lparr>openError := Some ''EACCES''\<rparr>"

definition fsWriteFails :: fsOutcome where
  "fsWriteFails = fsOk\<lparr>writeError := Some ''ENOSPC''\<rparr>"

definition fsUnlockFails :: fsOutcome where
  "fsUnlockFails = fsOk\<lparr>unlockError := True\<rparr>"

definition fsStreamFails :: fsOutcome where
  "fsStreamFails = fsOk\<lparr>streamError := Some ''EACCES''\<rparr>"

definition smallMsg :: IMessage where
  "smallMsg = \<lparr>filePath = ''/tmp/lsd/20230212162600.log'', message = [104, 105],
               isLargeData = False\<rparr>"

definition bigMsg :: IMessage where
  "bigMsg = \<lparr>filePath = ''/tmp/lsd/20230212162600_big.log'', message = replicate 4097 120,
             isLargeData = True\<rparr>"

definition sampleTime :: datetime where
  \<comment> \<open>2023-02-12T16:26:03\<close>
  "sampleTime = \<lparr>calYear = 2023, calMonth = 2, calDay = 12, calHour = 16, calMinute = 26,
                 calSecond = 3\<rparr>"

definition sampleEnv :: "fsOutcome \<Rightarrow> env" where
  "sampleEnv out = \<lparr>accessRes = AccessOk, mkdirError = None, clock = sampleTime,
                     hourCycleOf = H23, fsRes = out\<rparr>"

definition lockedSubmit :: action where
  \<comment> \<open>a call of \<open>writeLog\<close> with a large message whose file is locked\<close>
  "lockedSubmit = Submit (sampleEnv fsLocked) ''/tmp/lsd'' (replicate 4097 120)"

section \<open>Lemmas on formatting\<close>

lemma show_nat_1: "n < 10 \<Longrightarrow> show_nat n = [digitChar n]"
  by (simp add: show_nat.simps [of n])

lemma show_nat_2:
  assumes "10 \<le> n" "n < 100"
  shows "show_nat n = [digitChar (n div 10), digitChar (n mod 10)]"
proof -
  have "n div 10 < 10" using assms by simp
  then show ?thesis
    using assms by (simp add: show_nat.simps [of n] show_nat_1)
qed

lemma show_nat_3:
  assumes "100 \<le> n" "n < 1000"
  shows "show_nat n = [digitChar (n div 100), digitChar (n div 10 mod 10), digitChar (n mod 10)]"
proof -
  have "10 \<le> n div 10" "n div 10 < 100" using assms by simp_all
  moreover have "n div 10 div 10 = n div 100" by arith
  ultimately show ?thesis
    using assms by (simp add: show_nat.simps [of n] show_nat_2)
qed

lemma show_nat_4:
  assumes "1000 \<le> n" "n < 10000"
  shows "show_nat n =
    [digitChar (n div 1000), digitChar (n div 100 mod 10), digitChar (n div 10 mod 10),
     digitChar (n mod 10)]"
proof -
  have "100 \<le> n div 10" "n div 10 < 1000" using assms by simp_all
  moreover have "n div 10 div 100 = n div 1000" "n div 10 div 10 = n div 100" by arith+
  ultimately show ?thesis
    using assms by (simp add: show_nat.simps [of n] show_nat_3)
qed

lemma twoDigit_eq: "n < 100 \<Longrightarrow> twoDigit n = [digitChar (n div 10), digitChar (n mod 10)]"
  by (cases "n < 10") (simp_all add: twoDigit_def show_nat_1 show_nat_2 digitChar_def)

lemma padStart_minute:
  "n < 100 \<Longrightarrow> padStart 2 ''0'' (show_nat n) = [digitChar (n div 10), digitChar (n mod 10)]"
  by (cases "n < 10") (simp_all add: padStart_def show_nat_1 show_nat_2 digitChar_def)

lemma shownHour_lt: "h < 24 \<Longrightarrow> shownHour hc h < 100"
  by (cases hc) (simp_all add: shownHour_def)

lemma getFileName_digits:
  assumes "wallClock t" "1000 \<le> calYear t" "calYear t \<le> 9999"
  shows "getFileName hc t =
     [digitChar (calYear t div 1000), digitChar (calYear t div 100 mod 10),
      digitChar (calYear t div 10 mod 10), digitChar (calYear t mod 10),
      digitChar (calMonth t div 10), digitChar (calMonth t mod 10),
      digitChar (calDay t div 10), digitChar (calDay t mod 10),
      digitChar (shownHour hc (calHour t) div 10), digitChar (shownHour hc (calHour t) mod 10),
      digitChar (calMinute t div 10), digitChar (calMinute t mod 10),
      CHR ''0'', CHR ''0'']"
proof -
  have y: "formatYear t =
      [digitChar (calYear t div 1000), digitChar (calYear t div 100 mod 10),
       digitChar (calYear t div 10 mod 10), digitChar (calYear t mod 10)]"
    using assms by (simp add: formatYear_def show_nat_4)
  have m: "formatMonth t = [digitChar (calMonth t div 10), digitChar (calMonth t mod 10)]"
    using assms by (simp add: formatMonth_def wallClock_def twoDigit_eq)
  have d: "formatDay t = [digitChar (calDay t div 10), digitChar (calDay t mod 10)]"
    using assms by (simp add: formatDay_def wallClock_def twoDigit_eq)
  have h: "formatHour hc t =
      [digitChar (shownHour hc (calHour t) div 10), digitChar (shownHour hc (calHour t) mod 10)]"
    using assms by (simp add: formatHour_def wallClock_def twoDigit_eq shownHour_lt)
  have mi: "padStart 2 ''0'' (formatMinute t) =
      [digitChar (calMinute t div 10), digitChar (calMinute t mod 10)]"
    using assms by (simp add: formatMinute_def wallClock_def padStart_minute)
  show ?thesis
    by (simp add: getFileName_def y m d h mi)
qed

lemma shownHour_clock: "hc = H23 \<or> h \<noteq> 0 \<Longrightarrow> shownHour hc h = h"
  by (cases hc) (auto simp add: shownHour_def)

lemma getFileName_bucketName:
  assumes "wallClock t" "1000 \<le> calYear t" "calYear t \<le> 9999"
    and "hc = H23 \<or> calHour t \<noteq> 0"
  shows "getFileName hc t = bucketName t"
  by (simp add: getFileName_digits [OF assms(1,2,3)] bucketName_def
      shownHour_clock [OF assms(4)])

lemma sameMinute_getFileName: "sameMinute a b \<Longrightarrow> getFileName hc a = getFileName hc b"
  by (simp add: sameMinute_def getFileName_def formatYear_def formatMonth_def formatDay_def
      formatHour_def formatMinute_def)

section \<open>Lemmas on the writer\<close>

lemmas prim_defs = emit_def console_error_def process_umask_def fs_open_def fh_close_def
  flock_def fh_write_def resolve_def reject_def

lemma wl_result:
  "fst (writeToFileWithLock out path msg s) =
     (case openError out of
        Some err \<Rightarrow>
          Some (Inl \<lparr>errMessage = ''Can not open file. Error: '' @ dq @ err @ dq, code = None\<rparr>)
      | None \<Rightarrow>
          if lockError out then
            Some (Inl \<lparr>errMessage = ''Can no lock file '' @ dq @ path @ dq,
                       code = Some FILE_LOCKED\<rparr>)
          else
            (case writeError out of
               Some err \<Rightarrow>
                 Some (Inl \<lparr>errMessage = ''Can not write to file '' @ dq @ path @ dq
                              @ ''. Error: '' @ err, code = None\<rparr>)
             | None \<Rightarrow>
                 if unlockError out then
                   Some (Inl \<lparr>errMessage = ''Couldn't unlock file '' @ dq @ path @ dq,
                              code = None\<rparr>)
                 else Some (Inr True)))"
  by (simp add: writeToFileWithLock_def prim_defs split: option.splits)

lemma wl_trace_open_fails:
  "openError out = Some err \<Longrightarrow>
   newEvents s (snd (writeToFileWithLock out path msg s)) =
     [EvOpen path FILE_PERMISSION,
      EvReject \<lparr>errMessage = ''Can not open file. Error: '' @ dq @ err @ dq, code = None\<rparr>]"
  by (simp add: writeToFileWithLock_def prim_defs newEvents_def)

lemma wl_trace_lock_fails:
  "openError out = None \<Longrightarrow> lockError out \<Longrightarrow>
   newEvents s (snd (writeToFileWithLock out path msg s)) =
     [EvOpen path FILE_PERMISSION, EvFlock (nextFd s) FlockExnb, EvClose (nextFd s),
      EvReject \<lparr>errMessage = ''Can no lock file '' @ dq @ path @ dq, code = Some FILE_LOCKED\<rparr>]"
  by (simp add: writeToFileWithLock_def prim_defs newEvents_def)

lemma wl_trace_write_fails:
  "openError out = None \<Longrightarrow> \<not> lockError out \<Longrightarrow> writeError out = Some err \<Longrightarrow>
   newEvents s (snd (writeToFileWithLock out path msg s)) =
     [EvOpen path FILE_PERMISSION, EvFlock (nextFd s) FlockExnb, EvWrite (nextFd s) (msg @ EOL),
      EvClose (nextFd s), EvFlock (nextFd s) FlockUn,
      EvReject \<lparr>errMessage = ''Can not write to file '' @ dq @ path @ dq @ ''. Error: '' @ err,
                 code = None\<rparr>,
      EvFlock (nextFd s) FlockUn, EvClose (nextFd s),
      EvReject \<lparr>errMessage = ''Couldn't unlock file '' @ dq @ path @ dq, code = None\<rparr>]"
  by (simp add: writeToFileWithLock_def prim_defs newEvents_def)

lemma wl_trace_unlock_fails:
  "openError out = None \<Longrightarrow> \<not> lockError out \<Longrightarrow> writeError out = None \<Longrightarrow> unlockError out \<Longrightarrow>
   newEvents s (snd (writeToFileWithLock out path msg s)) =
     [EvOpen path FILE_PERMISSION, EvFlock (nextFd s) FlockExnb, EvWrite (nextFd s) (msg @ EOL),
      EvFlock (nextFd s) FlockUn, EvClose (nextFd s),
      EvReject \<lparr>errMessage = ''Couldn't unlock file '' @ dq @ path @ dq, code = None\<rparr>]"
  by (simp add: writeToFileWithLock_def prim_defs newEvents_def)

lemma wl_trace_succeeds:
  "openError out = None \<Longrightarrow> \<not> lockError out \<Longrightarrow> writeError out = None \<Longrightarrow> \<not> unlockError out \<Longrightarrow>
   newEvents s (snd (writeToFileWithLock out path msg s)) =
     [EvOpen path FILE_PERMISSION, EvFlock (nextFd s) FlockExnb, EvWrite (nextFd s) (msg @ EOL),
      EvFlock (nextFd s) FlockUn, EvClose (nextFd s), EvResolve]"
  by (simp add: writeToFileWithLock_def prim_defs newEvents_def)

lemma wl_handles:
  "openHandles (snd (writeToFileWithLock out path msg s)) =
     (case openError out of
        Some err \<Rightarrow> openHandles s
      | None \<Rightarrow> removeAll (nextFd s) (openHandles s))"
  by (simp add: writeToFileWithLock_def prim_defs Let_def split: option.splits prod.splits)

lemma wl_frame:
  "STORED_MESSAGES (snd (writeToFileWithLock out path msg s)) = STORED_MESSAGES s \<and>
   repeatTimer (snd (writeToFileWithLock out path msg s)) = repeatTimer s \<and>
   timers (snd (writeToFileWithLock out path msg s)) = timers s \<and>
   nextTimer (snd (writeToFileWithLock out path msg s)) = nextTimer s \<and>
   console (snd (writeToFileWithLock out path msg s)) = console s \<and>
   umaskOf (snd (writeToFileWithLock out path msg s)) = umaskOf s"
  by (simp add: writeToFileWithLock_def prim_defs Let_def split: option.splits prod.splits)

lemma wl_trace_extends:
  "trace (snd (writeToFileWithLock out path msg s)) =
     trace s @ newEvents s (snd (writeToFileWithLock out path msg s))"
  by (simp add: writeToFileWithLock_def prim_defs newEvents_def Let_def
      split: option.splits prod.splits)

lemma wf_result:
  "fst (writeToFile out path msg s) =
     (case streamError out of
        None \<Rightarrow> Some (Inr True)
      | Some err \<Rightarrow>
          Some (Inl \<lparr>errMessage = ''Can no write to file '' @ path @ ''. Error: '' @ dq @ err @ dq,
                     code = None\<rparr>))"
  by (simp add: writeToFile_def prim_defs Let_def split: option.splits)

lemma wf_trace:
  "newEvents s (snd (writeToFile out path msg s)) =
     [EvCreateWriteStream path FILE_PERMISSION, EvStreamWrite (msg @ EOL), EvStreamEnd,
      (case streamError out of
         None \<Rightarrow> EvResolve
       | Some err \<Rightarrow>
           EvReject \<lparr>errMessage = ''Can no write to file '' @ path @ ''. Error: '' @ dq @ err @ dq,
                      code = None\<rparr>)]"
  by (simp add: writeToFile_def prim_defs newEvents_def Let_def split: option.splits)

lemma wf_trace_extends:
  "trace (snd (writeToFile out path msg s)) = trace s @ newEvents s (snd (writeToFile out path msg s))"
  by (simp add: writeToFile_def prim_defs newEvents_def Let_def split: option.splits)

lemma wf_frame:
  "STORED_MESSAGES (snd (writeToFile out path msg s)) = STORED_MESSAGES s \<and>
   repeatTimer (snd (writeToFile out path msg s)) = repeatTimer s \<and>
   timers (snd (writeToFile out path msg s)) = timers s \<and>
   nextTimer (snd (writeToFile out path msg s)) = nextTimer s \<and>
   console (snd (writeToFile out path msg s)) = console s \<and>
   umaskOf (snd (writeToFile out path msg s)) = umaskOf s \<and>
   openHandles (snd (writeToFile out path msg s)) = openHandles s \<and>
   nextFd (snd (writeToFile out path msg s)) = nextFd s"
  by (simp add: writeToFile_def prim_defs Let_def split: option.splits)

lemma wd_small:
  "\<not> isLargeData m \<Longrightarrow>
   writeData out m s =
     (case writeToFile out (filePath m) (message m) (emit (EvUmask 0) (s\<lparr>umaskOf := 0\<rparr>)) of
        (None, s2) \<Rightarrow> (None, s2)
      | (Some (Inl e), s2) \<Rightarrow> (Some (Inl e), s2)
      | (Some (Inr ok), s2) \<Rightarrow>
          (Some (Inr ()), snd (process_umask (umaskOf s) s2)))"
  by (simp add: writeData_def process_umask_def)

lemma wd_large:
  "isLargeData m \<Longrightarrow>
   writeData out m s =
     (case writeToFileWithLock out (filePath m) (message m)
             (emit (EvUmask 0) (s\<lparr>umaskOf := 0\<rparr>)) of
        (None, s2) \<Rightarrow> (None, s2)
      | (Some (Inl e), s2) \<Rightarrow> (Some (Inl e), s2)
      | (Some (Inr ok), s2) \<Rightarrow>
          (Some (Inr ()), snd (process_umask (umaskOf s) s2)))"
  by (simp add: writeData_def process_umask_def)

lemma wd_result:
  "fst (writeData out m s) =
     (case (if isLargeData m
            then fst (writeToFileWithLock out (filePath m) (message m)
                        (emit (EvUmask 0) (s\<lparr>umaskOf := 0\<rparr>)))
            else fst (writeToFile out (filePath m) (message m)
                        (emit (EvUmask 0) (s\<lparr>umaskOf := 0\<rparr>)))) of
        None \<Rightarrow> None
      | Some (Inl e) \<Rightarrow> Some (Inl e)
      | Some (Inr ok) \<Rightarrow> Some (Inr ()))"
  by (cases "isLargeData m")
    (simp_all add: wd_small wd_large case_prod_beta split: option.splits sum.splits)

lemma wd_settles: "\<exists>r. fst (writeData out m s) = Some r"
  by (simp add: wd_result wl_result wf_result split: option.splits sum.splits)

lemma wd_code:
  "fst (writeData out m s) = Some (Inl e) \<Longrightarrow>
   (code e = Some FILE_LOCKED) = (isLargeData m \<and> openError out = None \<and> lockError out)"
  by (auto simp add: wd_result wl_result wf_result split: option.splits sum.splits if_splits)

lemma wd_umask:
  "umaskOf (snd (writeData out m s)) =
     (case fst (writeData out m s) of Some (Inr ok) \<Rightarrow> umaskOf s | _ \<Rightarrow> 0)"
  by (cases "isLargeData m")
    (simp_all add: wd_small wd_large case_prod_beta wl_frame wf_frame emit_def process_umask_def
      split: option.splits sum.splits)

lemma wd_frame:
  "STORED_MESSAGES (snd (writeData out m s)) = STORED_MESSAGES s \<and>
   repeatTimer (snd (writeData out m s)) = repeatTimer s \<and>
   timers (snd (writeData out m s)) = timers s \<and>
   nextTimer (snd (writeData out m s)) = nextTimer s \<and>
   console (snd (writeData out m s)) = console s"
  by (cases "isLargeData m")
    (simp_all add: wd_small wd_large case_prod_beta wl_frame wf_frame emit_def process_umask_def
      split: option.splits sum.splits)

section \<open>The lock-guarded write\<close>

lemma wl_closed_before_settle:
  "openError out = None \<Longrightarrow>
   EvClose (nextFd s) \<in> set (beforeSettle (newEvents s (snd (writeToFileWithLock out path msg s))))"
proof (cases "lockError out")
  case True
  assume "openError out = None"
  with True show ?thesis
    by (simp add: wl_trace_lock_fails beforeSettle_def isSettleCall_def)
next
  case nolock: False
  assume op: "openError out = None"
  show ?thesis
  proof (cases "writeError out")
    case (Some err)
    with op nolock show ?thesis
      by (simp add: wl_trace_write_fails beforeSettle_def isSettleCall_def)
  next
    case None
    with op nolock show ?thesis
      by (cases "unlockError out")
        (simp_all add: wl_trace_unlock_fails wl_trace_succeeds beforeSettle_def isSettleCall_def)
  qed
qed

lemma wl_settles: "\<exists>r. fst (writeToFileWithLock out path msg s) = Some r"
  by (simp add: wl_result split: option.splits)

lemma wl_not_open_after:
  "openError out = None \<Longrightarrow> nextFd s \<notin> set (openHandles (snd (writeToFileWithLock out path msg s)))"
  by (simp add: wl_handles)

lemma wl_no_new_handle:
  "set (openHandles (snd (writeToFileWithLock out path msg s))) \<subseteq> set (openHandles s)"
  by (auto simp add: wl_handles split: option.splits)

text \<open>
  C5. \<open>writeToFileWithLock\<close> rejects with an error whose code is \<open>FILE_LOCKED\<close> exactly
  when the file was opened and \<open>flock(fd, 'exnb')\<close> failed, and then the handle has been
  closed before the rejection. When instead the open, the write or the unlock fails, it
  rejects with an error that has no code.
\<close>

theorem C5_file_locked_iff_lock_fails:
  "((\<exists>e. fst (writeToFileWithLock out path msg s) = Some (Inl e) \<and> code e = Some FILE_LOCKED)
      = (openError out = None \<and> lockError out))
   \<and> (openError out = None \<and> lockError out \<longrightarrow>
        EvClose (nextFd s)
          \<in> set (beforeSettle (newEvents s (snd (writeToFileWithLock out path msg s))))
        \<and> nextFd s \<notin> set (openHandles (snd (writeToFileWithLock out path msg s))))
   \<and> (openError out \<noteq> None \<or> (\<not> lockError out \<and> (writeError out \<noteq> None \<or> unlockError out))
        \<longrightarrow> (\<exists>e. fst (writeToFileWithLock out path msg s) = Some (Inl e) \<and> code e = None))"
proof (intro conjI impI)
  show "(\<exists>e. fst (writeToFileWithLock out path msg s) = Some (Inl e) \<and> code e = Some FILE_LOCKED)
      = (openError out = None \<and> lockError out)"
    by (auto simp add: wl_result split: option.splits if_splits)
next
  assume "openError out = None \<and> lockError out"
  then show "EvClose (nextFd s)
      \<in> set (beforeSettle (newEvents s (snd (writeToFileWithLock out path msg s))))"
    by (simp add: wl_closed_before_settle)
next
  assume "openError out = None \<and> lockError out"
  then show "nextFd s \<notin> set (openHandles (snd (writeToFileWithLock out path msg s)))"
    by (simp add: wl_not_open_after)
next
  assume "openError out \<noteq> None \<or> (\<not> lockError out \<and> (writeError out \<noteq> None \<or> unlockError out))"
  then show "\<exists>e. fst (writeToFileWithLock out path msg s) = Some (Inl e) \<and> code e = None"
    by (auto simp add: wl_result split: option.splits if_splits)
qed

theorem C5_witness:
  "(\<exists>e. fst (writeToFileWithLock fsLocked (filePath bigMsg) (message bigMsg) (initWorld 18))
          = Some (Inl e) \<and> code e = Some FILE_LOCKED)
   \<and> EvClose 3 \<in> set (beforeSettle (newEvents (initWorld 18)
        (snd (writeToFileWithLock fsLocked (filePath bigMsg) (message bigMsg) (initWorld 18)))))
   \<and> 3 \<notin> set (openHandles
        (snd (writeToFileWithLock fsLocked (filePath bigMsg) (message bigMsg) (initWorld 18))))
   \<and> (\<exists>e. fst (writeToFileWithLock fsWriteFails (filePath bigMsg) (message bigMsg) (initWorld 18))
          = Some (Inl e) \<and> code e = None)"
proof -
  have l: "openError fsLocked = None \<and> lockError fsLocked"
    by (simp add: fsLocked_def fsOk_def)
  have w: "openError fsWriteFails \<noteq> None
      \<or> (\<not> lockError fsWriteFails \<and> (writeError fsWriteFails \<noteq> None \<or> unlockError fsWriteFails))"
    by (simp add: fsWriteFails_def fsOk_def)
  have n: "nextFd (initWorld 18) = 3" by (simp add: initWorld_def)
  note a = C5_file_locked_iff_lock_fails
      [of fsLocked "filePath bigMsg" "message bigMsg" "initWorld 18"]
  note b = C5_file_locked_iff_lock_fails
      [of fsWriteFails "filePath bigMsg" "message bigMsg" "initWorld 18"]
  have A: "\<exists>e. fst (writeToFileWithLock fsLocked (filePath bigMsg) (message bigMsg) (initWorld 18))
          = Some (Inl e) \<and> code e = Some FILE_LOCKED"
    using a l by blast
  have B: "EvClose (nextFd (initWorld 18)) \<in> set (beforeSettle (newEvents (initWorld 18)
        (snd (writeToFileWithLock fsLocked (filePath bigMsg) (message bigMsg) (initWorld 18)))))
      \<and> nextFd (initWorld 18) \<notin> set (openHandles
        (snd (writeToFileWithLock fsLocked (filePath bigMsg) (message bigMsg) (initWorld 18))))"
    using a l by blast
  have C: "\<exists>e. fst (writeToFileWithLock fsWriteFails (filePath bigMsg) (message bigMsg) (initWorld 18))
          = Some (Inl e) \<and> code e = None"
    using b w by blast
  show ?thesis using A B C by (simp add: n)
qed

text \<open>
  C9. \<open>writeToFileWithLock\<close> always settles its promise. When it opened the file, it has
  called \<open>close()\<close> on the handle before the first \<open>resolve\<close> or \<open>reject\<close>, whichever
  call failed, and the handle is not among the open ones afterwards; when the open
  failed there is no handle. No handle is open afterwards that was not open before.
\<close>

theorem C9_handle_closed_on_every_path:
  "(\<exists>r. fst (writeToFileWithLock out path msg s) = Some r)
   \<and> (openError out = None \<longrightarrow>
        EvClose (nextFd s)
          \<in> set (beforeSettle (newEvents s (snd (writeToFileWithLock out path msg s))))
        \<and> nextFd s \<notin> set (openHandles (snd (writeToFileWithLock out path msg s))))
   \<and> (openError out \<noteq> None \<longrightarrow>
        openHandles (snd (writeToFileWithLock out path msg s)) = openHandles s)
   \<and> set (openHandles (snd (writeToFileWithLock out path msg s))) \<subseteq> set (openHandles s)"
  using wl_settles [of out path msg s] wl_no_new_handle [of out path msg s]
  by (auto simp add: wl_closed_before_settle wl_not_open_after wl_handles)

theorem C9_witness:
  "(\<exists>r. fst (writeToFileWithLock fsUnlockFails (filePath bigMsg) (message bigMsg) (initWorld 18))
          = Some r)
   \<and> EvClose 3 \<in> set (beforeSettle (newEvents (initWorld 18)
        (snd (writeToFileWithLock fsUnlockFails (filePath bigMsg) (message bigMsg)
               (initWorld 18)))))
   \<and> 3 \<notin> set (openHandles
        (snd (writeToFileWithLock fsUnlockFails (filePath bigMsg) (message bigMsg)
               (initWorld 18))))
   \<and> openHandles
        (snd (writeToFileWithLock fsOpenFails (filePath bigMsg) (message bigMsg) (initWorld 18)))
       = openHandles (initWorld 18)"
proof -
  have u: "openError fsUnlockFails = None" by (simp add: fsUnlockFails_def fsOk_def)
  have o: "openError fsOpenFails \<noteq> None" by (simp add: fsOpenFails_def fsOk_def)
  have n: "nextFd (initWorld 18) = 3" by (simp add: initWorld_def)
  note a = C9_handle_closed_on_every_path
      [of fsUnlockFails "filePath bigMsg" "message bigMsg" "initWorld 18"]
  note b = C9_handle_closed_on_every_path
      [of fsOpenFails "filePath bigMsg" "message bigMsg" "initWorld 18"]
  have A: "\<exists>r. fst (writeToFileWithLock fsUnlockFails (filePath bigMsg) (message bigMsg)
      (initWorld 18)) = Some r"
    using a by blast
  have B: "EvClose (nextFd (initWorld 18)) \<in> set (beforeSettle (newEvents (initWorld 18)
        (snd (writeToFileWithLock fsUnlockFails (filePath bigMsg) (message bigMsg)
               (initWorld 18)))))
      \<and> nextFd (initWorld 18) \<notin> set (openHandles
        (snd (writeToFileWithLock fsUnlockFails (filePath bigMsg) (message bigMsg)
               (initWorld 18))))"
    using a u by blast
  have C: "openHandles
        (snd (writeToFileWithLock fsOpenFails (filePath bigMsg) (message bigMsg) (initWorld 18)))
       = openHandles (initWorld 18)"
    using b o by blast
  show ?thesis using A B C by (simp add: n)
qed

section \<open>The bucket name\<close>

lemma digitChar_isDigit: "d < 10 \<Longrightarrow> isDigit (digitChar d)"
  unfolding isDigit_def digitChar_def by (rule nth_mem) simp

lemma div10_lt: "(n::nat) < 100 \<Longrightarrow> n div 10 < 10"
  by arith

lemma shownHour_div: "h < 24 \<Longrightarrow> shownHour hc h div 10 < 10"
  by (rule div10_lt) (rule shownHour_lt)

lemma getFileName_isDigit:
  assumes "wallClock t" "1000 \<le> calYear t" "calYear t \<le> 9999"
  shows "list_all isDigit (getFileName hc t)"
proof -
  have "calYear t div 1000 < 10" using assms by arith
  moreover have "calMonth t div 10 < 10" "calDay t div 10 < 10" "calMinute t div 10 < 10"
    using assms by (simp_all add: wallClock_def div10_lt)
  moreover have "shownHour hc (calHour t) div 10 < 10"
    using assms by (simp add: wallClock_def shownHour_div)
  moreover have "isDigit CHR ''0''" by (simp add: isDigit_def)
  ultimately show ?thesis
    by (simp add: getFileName_digits [OF assms] digitChar_isDigit)
qed

lemma getFileName_length:
  assumes "wallClock t" "1000 \<le> calYear t" "calYear t \<le> 9999"
  shows "length (getFileName hc t) = 14"
  by (simp add: getFileName_digits [OF assms])

text \<open>
  On an engine that resolves \<open>hour12: false\<close> to the cycle \<open>h24\<close>, the hour after
  midnight is printed as 24, not as 00 as the format of the spec has it. That is why the
  comparison with \<open>bucketName\<close> below is stated for the cycle \<open>h23\<close> and, on the other
  cycle, for every hour but that one.
\<close>

lemma getFileName_h24_midnight:
  "getFileName H24 (sampleTime\<lparr>calHour := 0\<rparr>) = ''20230212242600''
   \<and> bucketName (sampleTime\<lparr>calHour := 0\<rparr>) = ''20230212002600''"
proof -
  have "wallClock (sampleTime\<lparr>calHour := 0\<rparr>)"
    "1000 \<le> calYear (sampleTime\<lparr>calHour := 0\<rparr>)"
    "calYear (sampleTime\<lparr>calHour := 0\<rparr>) \<le> 9999"
    by (simp_all add: wallClock_def sampleTime_def)
  then show ?thesis
    by (simp add: getFileName_digits bucketName_def)
      (simp add: sampleTime_def shownHour_def digitChar_def)
qed

text \<open>
  C3, as amended. For every clock reading whose year has four digits (1000 to 9999),
  \<open>getFileName\<close> returns 14 characters, all of them digits, and every reading within the
  same calendar minute gives the same string. Where the engine prints midnight as hour 00
  (hour cycle \<open>h23\<close>), and on any engine outside the hour after midnight, that string is
  \<open>YYYYMMDDhhmm00\<close> read off the clock: the four-digit year, then month, day, 24-hour
  hour (00 to 23) and minute each as two digits with a leading zero, then \<open>00\<close>.
\<close>

theorem C3_bucket_name_four_digit_year:
  assumes "wallClock t" "1000 \<le> calYear t" "calYear t \<le> 9999"
  shows "length (getFileName hc t) = 14
    \<and> list_all isDigit (getFileName hc t)
    \<and> (\<forall>t'. sameMinute t t' \<longrightarrow> getFileName hc t' = getFileName hc t)
    \<and> (hc = H23 \<or> calHour t \<noteq> 0 \<longrightarrow> getFileName hc t = bucketName t)"
proof -
  have len: "length (getFileName hc t) = 14"
    using assms by (rule getFileName_length)
  have dig: "list_all isDigit (getFileName hc t)"
    using assms by (rule getFileName_isDigit)
  have same: "\<forall>t'. sameMinute t t' \<longrightarrow> getFileName hc t' = getFileName hc t"
    using sameMinute_getFileName [of t _ hc] by auto
  have eq: "hc = H23 \<or> calHour t \<noteq> 0 \<longrightarrow> getFileName hc t = bucketName t"
    using getFileName_bucketName [OF assms] by blast
  show ?thesis using len dig same eq by blast
qed

theorem C3_witness:
  "wallClock sampleTime \<and> 1000 \<le> calYear sampleTime \<and> calYear sampleTime \<le> 9999
   \<and> getFileName H23 sampleTime = ''20230212162600''
   \<and> length (getFileName H23 sampleTime) = 14
   \<and> sameMinute sampleTime (sampleTime\<lparr>calSecond := 59\<rparr>)
   \<and> getFileName H23 (sampleTime\<lparr>calSecond := 59\<rparr>) = getFileName H23 sampleTime
   \<and> wallClock (sampleTime\<lparr>calHour := 0\<rparr>)
   \<and> getFileName H23 (sampleTime\<lparr>calHour := 0\<rparr>) = ''20230212002600''
   \<and> calHour sampleTime \<noteq> 0
   \<and> getFileName H24 sampleTime = ''20230212162600''"
proof -
  have w: "wallClock sampleTime" by (simp add: wallClock_def sampleTime_def)
  have lo: "1000 \<le> calYear sampleTime" and hi: "calYear sampleTime \<le> 9999"
    by (simp_all add: sampleTime_def)
  have sm: "sameMinute sampleTime (sampleTime\<lparr>calSecond := 59\<rparr>)"
    by (simp add: sameMinute_def)
  have w0: "wallClock (sampleTime\<lparr>calHour := 0\<rparr>)"
    by (simp add: wallClock_def sampleTime_def)
  have lo0: "1000 \<le> calYear (sampleTime\<lparr>calHour := 0\<rparr>)"
    and hi0: "calYear (sampleTime\<lparr>calHour := 0\<rparr>) \<le> 9999"
    by (simp_all add: sampleTime_def)
  have nz: "calHour sampleTime \<noteq> 0" by (simp add: sampleTime_def)
  note th = C3_bucket_name_four_digit_year [OF w lo hi, of H23]
  note th0 = C3_bucket_name_four_digit_year [OF w0 lo0 hi0, of H23]
  note th24 = C3_bucket_name_four_digit_year [OF w lo hi, of H24]
  have b: "bucketName sampleTime = ''20230212162600''"
    by (simp add: bucketName_def sampleTime_def digitChar_def)
  have b0: "bucketName (sampleTime\<lparr>calHour := 0\<rparr>) = ''20230212002600''"
    by (simp add: bucketName_def sampleTime_def digitChar_def)
  have A: "getFileName H23 sampleTime = bucketName sampleTime
      \<and> length (getFileName H23 sampleTime) = 14"
    using th by blast
  have B: "getFileName H23 (sampleTime\<lparr>calSecond := 59\<rparr>) = getFileName H23 sampleTime"
    using th sm by blast
  have C: "getFileName H23 (sampleTime\<lparr>calHour := 0\<rparr>)
      = bucketName (sampleTime\<lparr>calHour := 0\<rparr>)"
    using th0 by blast
  have D: "getFileName H24 sampleTime = bucketName sampleTime"
    using th24 nz by blast
  show ?thesis
    using w lo hi sm w0 nz A B C D by (simp add: b b0)
qed

theorem C3_counterexample:
  "wallClock (sampleTime\<lparr>calYear := 10000\<rparr>)
   \<and> getFileName H23 (sampleTime\<lparr>calYear := 10000\<rparr>) = ''100000212162600''
   \<and> length (getFileName H23 (sampleTime\<lparr>calYear := 10000\<rparr>)) \<noteq> 14"
proof -
  have y: "show_nat 10000 = ''10000''"
    by (simp add: show_nat.simps digitChar_def)
  have g: "getFileName H23 (sampleTime\<lparr>calYear := 10000\<rparr>) = ''100000212162600''"
    by (simp add: getFileName_def formatYear_def formatMonth_def formatDay_def formatHour_def
        formatMinute_def sampleTime_def twoDigit_def padStart_def shownHour_def y show_nat_1
        show_nat_2 digitChar_def)
  show ?thesis
    by (simp add: g) (simp add: wallClock_def sampleTime_def)
qed

section \<open>The size threshold\<close>

lemma lmd_small:
  "length msg \<le> MAX_MESSAGE_SIZE \<Longrightarrow>
   logMessageData dirPath fileName msg =
     \<lparr>filePath = dirPath @ ''/'' @ fileName @ ''.log'', message = msg, isLargeData = False\<rparr>"
  by (simp add: logMessageData_def)

lemma lmd_large:
  "MAX_MESSAGE_SIZE < length msg \<Longrightarrow>
   logMessageData dirPath fileName msg =
     \<lparr>filePath = dirPath @ ''/'' @ fileName @ ''_big.log'', message = msg, isLargeData = True\<rparr>"
  by (simp add: logMessageData_def)

lemma newEvents_append: "trace s' = trace s @ xs \<Longrightarrow> newEvents s s' = xs"
  by (simp add: newEvents_def)

lemma wd_trace_small:
  assumes "\<not> isLargeData m"
  shows "newEvents s (snd (writeData out m s)) =
     EvUmask 0
     # newEvents (emit (EvUmask 0) (s\<lparr>umaskOf := 0\<rparr>))
         (snd (writeToFile out (filePath m) (message m) (emit (EvUmask 0) (s\<lparr>umaskOf := 0\<rparr>))))
     @ (case fst (writeData out m s) of Some (Inr ok) \<Rightarrow> [EvUmask (umaskOf s)] | _ \<Rightarrow> [])"
proof -
  define s1 where "s1 = emit (EvUmask 0) (s\<lparr>umaskOf := 0\<rparr>)"
  define w where "w = writeToFile out (filePath m) (message m) s1"
  define xs where "xs = newEvents s1 (snd w)"
  have t1: "trace s1 = trace s @ [EvUmask 0]"
    by (simp add: s1_def emit_def)
  have t2: "trace (snd w) = trace s1 @ xs"
    unfolding w_def xs_def by (rule wf_trace_extends)
  have wd: "writeData out m s =
      (case w of
         (None, s2) \<Rightarrow> (None, s2)
       | (Some (Inl e), s2) \<Rightarrow> (Some (Inl e), s2)
       | (Some (Inr ok), s2) \<Rightarrow> (Some (Inr ()), snd (process_umask (umaskOf s) s2)))"
    using assms by (simp add: wd_small w_def s1_def)
  have "trace (snd (writeData out m s)) =
      trace s @ EvUmask 0 # xs
        @ (case fst (writeData out m s) of Some (Inr ok) \<Rightarrow> [EvUmask (umaskOf s)] | _ \<Rightarrow> [])"
    by (simp add: wd case_prod_beta t1 t2 process_umask_def emit_def
        split: option.splits sum.splits)
  then show ?thesis
    unfolding xs_def w_def s1_def by (rule newEvents_append)
qed

lemma wd_trace_large:
  assumes "isLargeData m"
  shows "newEvents s (snd (writeData out m s)) =
     EvUmask 0
     # newEvents (emit (EvUmask 0) (s\<lparr>umaskOf := 0\<rparr>))
         (snd (writeToFileWithLock out (filePath m) (message m)
                (emit (EvUmask 0) (s\<lparr>umaskOf := 0\<rparr>))))
     @ (case fst (writeData out m s) of Some (Inr ok) \<Rightarrow> [EvUmask (umaskOf s)] | _ \<Rightarrow> [])"
proof -
  define s1 where "s1 = emit (EvUmask 0) (s\<lparr>umaskOf := 0\<rparr>)"
  define w where "w = writeToFileWithLock out (filePath m) (message m) s1"
  define xs where "xs = newEvents s1 (snd w)"
  have t1: "trace s1 = trace s @ [EvUmask 0]"
    by (simp add: s1_def emit_def)
  have t2: "trace (snd w) = trace s1 @ xs"
    unfolding w_def xs_def by (rule wl_trace_extends)
  have wd: "writeData out m s =
      (case w of
         (None, s2) \<Rightarrow> (None, s2)
       | (Some (Inl e), s2) \<Rightarrow> (Some (Inl e), s2)
       | (Some (Inr ok), s2) \<Rightarrow> (Some (Inr ()), snd (process_umask (umaskOf s) s2)))"
    using assms by (simp add: wd_large w_def s1_def)
  have "trace (snd (writeData out m s)) =
      trace s @ EvUmask 0 # xs
        @ (case fst (writeData out m s) of Some (Inr ok) \<Rightarrow> [EvUmask (umaskOf s)] | _ \<Rightarrow> [])"
    by (simp add: wd case_prod_beta t1 t2 process_umask_def emit_def
        split: option.splits sum.splits)
  then show ?thesis
    unfolding xs_def w_def s1_def by (rule newEvents_append)
qed

lemma wd_small_no_flock:
  "\<not> isLargeData m \<Longrightarrow> \<not> list_ex isFlockCall (newEvents s (snd (writeData out m s)))"
  by (simp add: wd_trace_small wf_trace isFlockCall_def split: option.splits sum.splits)

lemma wd_small_stream:
  "\<not> isLargeData m \<Longrightarrow>
   EvCreateWriteStream (filePath m) FILE_PERMISSION \<in> set (newEvents s (snd (writeData out m s)))"
  by (simp add: wd_trace_small wf_trace split: option.splits sum.splits)

lemma wd_small_stream_write:
  "\<not> isLargeData m \<Longrightarrow>
   EvStreamWrite (message m @ EOL) \<in> set (newEvents s (snd (writeData out m s)))"
  by (simp add: wd_trace_small wf_trace split: option.splits sum.splits)

lemma wd_small_result:
  "\<not> isLargeData m \<Longrightarrow> streamError out = None \<Longrightarrow> fst (writeData out m s) = Some (Inr ())"
  by (simp add: wd_result wf_result)

lemma wl_events:
  "\<not> list_ex isStreamCall (newEvents s (snd (writeToFileWithLock out path msg s)))
   \<and> EvOpen path FILE_PERMISSION \<in> set (newEvents s (snd (writeToFileWithLock out path msg s)))
   \<and> (openError out = None \<longrightarrow>
        EvFlock (nextFd s) FlockExnb \<in> set (newEvents s (snd (writeToFileWithLock out path msg s))))
   \<and> list_ex isWriteCall (newEvents s (snd (writeToFileWithLock out path msg s)))
       = (openError out = None \<and> \<not> lockError out)"
proof (cases "openError out")
  case (Some err)
  then show ?thesis by (simp add: wl_trace_open_fails isStreamCall_def isWriteCall_def)
next
  case op: None
  show ?thesis
  proof (cases "lockError out")
    case True
    with op show ?thesis by (simp add: wl_trace_lock_fails isStreamCall_def isWriteCall_def)
  next
    case nolock: False
    show ?thesis
    proof (cases "writeError out")
      case (Some err)
      with op nolock show ?thesis
        by (simp add: wl_trace_write_fails isStreamCall_def isWriteCall_def)
    next
      case None
      with op nolock show ?thesis
        by (cases "unlockError out")
          (simp_all add: wl_trace_unlock_fails wl_trace_succeeds isStreamCall_def
            isWriteCall_def)
    qed
  qed
qed

lemma wd_large_events:
  assumes "isLargeData m"
  shows "\<not> list_ex isStreamCall (newEvents s (snd (writeData out m s)))
   \<and> EvOpen (filePath m) FILE_PERMISSION \<in> set (newEvents s (snd (writeData out m s)))
   \<and> (openError out = None \<longrightarrow>
        EvFlock (nextFd s) FlockExnb \<in> set (newEvents s (snd (writeData out m s))))
   \<and> list_ex isWriteCall (newEvents s (snd (writeData out m s)))
       = (openError out = None \<and> \<not> lockError out)"
proof -
  have n: "nextFd (emit (EvUmask 0) (s\<lparr>umaskOf := 0\<rparr>)) = nextFd s"
    by (simp add: emit_def)
  show ?thesis
    using wl_events [of "emit (EvUmask 0) (s\<lparr>umaskOf := 0\<rparr>)" out "filePath m" "message m"] assms
    by (simp add: wd_trace_large n isStreamCall_def isWriteCall_def
        split: option.splits sum.splits)
qed

text \<open>
  C4. \<open>isLargeData\<close> is true exactly when \<open>message.length\<close> exceeds 4096. Up to 4096
  the file is \<open>dirPath/fileName.log\<close> and the write is the stream append of
  \<open>writeToFile\<close>, with no \<open>flock\<close> call; above 4096 the file is
  \<open>dirPath/fileName_big.log\<close> and the write is \<open>writeToFileWithLock\<close>: no stream, the
  file opened and, once open, locked with \<open>flock(fd, 'exnb')\<close>, and the message written
  to the handle exactly when that lock was acquired.
\<close>

theorem C4_size_threshold_selects_path:
  "MAX_MESSAGE_SIZE = 4096
   \<and> isLargeData (logMessageData dirPath fileName msg) = (4096 < length msg)
   \<and> (length msg \<le> 4096 \<longrightarrow>
        filePath (logMessageData dirPath fileName msg) = dirPath @ ''/'' @ fileName @ ''.log''
        \<and> \<not> list_ex isFlockCall
            (newEvents s (snd (writeData out (logMessageData dirPath fileName msg) s)))
        \<and> EvCreateWriteStream (dirPath @ ''/'' @ fileName @ ''.log'') FILE_PERMISSION
            \<in> set (newEvents s (snd (writeData out (logMessageData dirPath fileName msg) s))))
   \<and> (4096 < length msg \<longrightarrow>
        filePath (logMessageData dirPath fileName msg) = dirPath @ ''/'' @ fileName @ ''_big.log''
        \<and> \<not> list_ex isStreamCall
            (newEvents s (snd (writeData out (logMessageData dirPath fileName msg) s)))
        \<and> EvOpen (dirPath @ ''/'' @ fileName @ ''_big.log'') FILE_PERMISSION
            \<in> set (newEvents s (snd (writeData out (logMessageData dirPath fileName msg) s)))
        \<and> (openError out = None \<longrightarrow>
             EvFlock (nextFd s) FlockExnb
               \<in> set (newEvents s (snd (writeData out (logMessageData dirPath fileName msg) s))))
        \<and> list_ex isWriteCall
              (newEvents s (snd (writeData out (logMessageData dirPath fileName msg) s)))
            = (openError out = None \<and> \<not> lockError out))"
proof (cases "length msg \<le> 4096")
  case True
  then have m: "logMessageData dirPath fileName msg =
     \<lparr>filePath = dirPath @ ''/'' @ fileName @ ''.log'', message = msg, isLargeData = False\<rparr>"
    by (simp add: lmd_small MAX_MESSAGE_SIZE_def)
  have "\<not> isLargeData (logMessageData dirPath fileName msg)" by (simp add: m)
  then have "\<not> list_ex isFlockCall
       (newEvents s (snd (writeData out (logMessageData dirPath fileName msg) s)))"
    and "EvCreateWriteStream (filePath (logMessageData dirPath fileName msg)) FILE_PERMISSION
       \<in> set (newEvents s (snd (writeData out (logMessageData dirPath fileName msg) s)))"
    by (rule wd_small_no_flock, rule wd_small_stream)
  with True show ?thesis by (simp add: m MAX_MESSAGE_SIZE_def)
next
  case False
  then have m: "logMessageData dirPath fileName msg =
     \<lparr>filePath = dirPath @ ''/'' @ fileName @ ''_big.log'', message = msg, isLargeData = True\<rparr>"
    by (simp add: lmd_large MAX_MESSAGE_SIZE_def)
  have "isLargeData (logMessageData dirPath fileName msg)" by (simp add: m)
  from wd_large_events [OF this, of s out] False show ?thesis
    by (simp add: m MAX_MESSAGE_SIZE_def)
qed

theorem C4_witness:
  "\<not> isLargeData (logMessageData ''/tmp/lsd'' ''20230212162600'' [104, 105])
   \<and> filePath (logMessageData ''/tmp/lsd'' ''20230212162600'' [104, 105])
       = ''/tmp/lsd/20230212162600.log''
   \<and> \<not> list_ex isFlockCall (newEvents (initWorld 18)
         (snd (writeData fsOk (logMessageData ''/tmp/lsd'' ''20230212162600'' [104, 105])
                (initWorld 18))))
   \<and> isLargeData (logMessageData ''/tmp/lsd'' ''20230212162600'' (replicate 4097 120))
   \<and> filePath (logMessageData ''/tmp/lsd'' ''20230212162600'' (replicate 4097 120))
       = ''/tmp/lsd/20230212162600_big.log''
   \<and> EvFlock 3 FlockExnb \<in> set (newEvents (initWorld 18)
         (snd (writeData fsOk (logMessageData ''/tmp/lsd'' ''20230212162600'' (replicate 4097 120))
                (initWorld 18))))"
proof -
  have small: "length [104, 105 :: 16 word] \<le> 4096" by simp
  have large: "4096 < length (replicate 4097 (120 :: 16 word))" by simp
  have op: "openError fsOk = None" by (simp add: fsOk_def)
  have n: "nextFd (initWorld 18) = 3" by (simp add: initWorld_def)
  note a = C4_size_threshold_selects_path
      [of "''/tmp/lsd''" "''20230212162600''" "[104, 105]" "initWorld 18" fsOk]
  note b = C4_size_threshold_selects_path
      [of "''/tmp/lsd''" "''20230212162600''" "replicate 4097 120" "initWorld 18" fsOk]
  have A: "\<not> isLargeData (logMessageData ''/tmp/lsd'' ''20230212162600'' [104, 105])"
    using a small by simp
  have B: "filePath (logMessageData ''/tmp/lsd'' ''20230212162600'' [104, 105])
       = ''/tmp/lsd'' @ ''/'' @ ''20230212162600'' @ ''.log''
     \<and> \<not> list_ex isFlockCall (newEvents (initWorld 18)
         (snd (writeData fsOk (logMessageData ''/tmp/lsd'' ''20230212162600'' [104, 105])
                (initWorld 18))))"
    using a small by blast
  have C: "isLargeData (logMessageData ''/tmp/lsd'' ''20230212162600'' (replicate 4097 120))"
    using b large by simp
  have D: "filePath (logMessageData ''/tmp/lsd'' ''20230212162600'' (replicate 4097 120))
       = ''/tmp/lsd'' @ ''/'' @ ''20230212162600'' @ ''_big.log''
     \<and> EvFlock (nextFd (initWorld 18)) FlockExnb \<in> set (newEvents (initWorld 18)
         (snd (writeData fsOk (logMessageData ''/tmp/lsd'' ''20230212162600'' (replicate 4097 120))
                (initWorld 18))))"
    using b large op by blast
  show ?thesis using A B C D by (simp add: n)
qed

lemma utf8Length_replicate:
  "\<not> isHighSurrogate c \<Longrightarrow> utf8Length (replicate n c) = n * unitBytes c"
proof (induction n)
  case 0
  show ?case by simp
next
  case (Suc n)
  then show ?case by (cases n) simp_all
qed

text \<open>
  C10. The threshold is compared with \<open>message.length\<close>, the number of UTF-16 code
  units, whatever the number of bytes the message is written as: a message of at most
  4096 code units whose UTF-8 encoding is longer than 4096 bytes is not large, goes to
  the file without \<open>_big\<close> and is written there by the unlocked writer: the append
  stream is opened on that file, the message and the line end are written to it, no
  \<open>flock\<close> call is made, and the write succeeds unless the stream fails.
\<close>

theorem C10_threshold_counts_code_units:
  "isLargeData (logMessageData dirPath fileName msg) = (MAX_MESSAGE_SIZE < length msg)
   \<and> (length msg \<le> 4096 \<and> 4096 < utf8Length msg \<longrightarrow>
        \<not> isLargeData (logMessageData dirPath fileName msg)
        \<and> filePath (logMessageData dirPath fileName msg) = dirPath @ ''/'' @ fileName @ ''.log''
        \<and> \<not> list_ex isFlockCall
            (newEvents s (snd (writeData out (logMessageData dirPath fileName msg) s)))
        \<and> EvCreateWriteStream (dirPath @ ''/'' @ fileName @ ''.log'') FILE_PERMISSION
            \<in> set (newEvents s (snd (writeData out (logMessageData dirPath fileName msg) s)))
        \<and> EvStreamWrite (msg @ EOL)
            \<in> set (newEvents s (snd (writeData out (logMessageData dirPath fileName msg) s)))
        \<and> (streamError out = None \<longrightarrow>
             fst (writeData out (logMessageData dirPath fileName msg) s) = Some (Inr ())))"
proof (cases "length msg \<le> 4096")
  case True
  then have m: "logMessageData dirPath fileName msg =
     \<lparr>filePath = dirPath @ ''/'' @ fileName @ ''.log'', message = msg, isLargeData = False\<rparr>"
    by (simp add: lmd_small MAX_MESSAGE_SIZE_def)
  have small: "\<not> isLargeData (logMessageData dirPath fileName msg)" by (simp add: m)
  have 1: "\<not> list_ex isFlockCall
       (newEvents s (snd (writeData out (logMessageData dirPath fileName msg) s)))"
    using small by (rule wd_small_no_flock)
  have 2: "EvCreateWriteStream (filePath (logMessageData dirPath fileName msg)) FILE_PERMISSION
       \<in> set (newEvents s (snd (writeData out (logMessageData dirPath fileName msg) s)))"
    using small by (rule wd_small_stream)
  have 3: "EvStreamWrite (message (logMessageData dirPath fileName msg) @ EOL)
       \<in> set (newEvents s (snd (writeData out (logMessageData dirPath fileName msg) s)))"
    using small by (rule wd_small_stream_write)
  have 4: "streamError out = None \<longrightarrow>
       fst (writeData out (logMessageData dirPath fileName msg) s) = Some (Inr ())"
    using small by (simp add: wd_small_result)
  show ?thesis
    using True 1 2 3 4 by (simp add: m MAX_MESSAGE_SIZE_def)
next
  case False
  then show ?thesis by (simp add: lmd_large MAX_MESSAGE_SIZE_def)
qed

theorem C10_witness:
  "length (replicate 4096 (0xE9 :: 16 word)) \<le> 4096
   \<and> utf8Length (replicate 4096 0xE9) = 8192
   \<and> \<not> isLargeData (logMessageData ''/tmp/lsd'' ''20230212162600'' (replicate 4096 0xE9))
   \<and> filePath (logMessageData ''/tmp/lsd'' ''20230212162600'' (replicate 4096 0xE9))
       = ''/tmp/lsd/20230212162600.log''
   \<and> \<not> list_ex isFlockCall (newEvents (initWorld 18)
         (snd (writeData fsOk (logMessageData ''/tmp/lsd'' ''20230212162600'' (replicate 4096 0xE9))
                (initWorld 18))))
   \<and> EvCreateWriteStream ''/tmp/lsd/20230212162600.log'' FILE_PERMISSION
       \<in> set (newEvents (initWorld 18)
         (snd (writeData fsOk (logMessageData ''/tmp/lsd'' ''20230212162600'' (replicate 4096 0xE9))
                (initWorld 18))))
   \<and> EvStreamWrite (replicate 4096 0xE9 @ EOL)
       \<in> set (newEvents (initWorld 18)
         (snd (writeData fsOk (logMessageData ''/tmp/lsd'' ''20230212162600'' (replicate 4096 0xE9))
                (initWorld 18))))
   \<and> fst (writeData fsOk (logMessageData ''/tmp/lsd'' ''20230212162600'' (replicate 4096 0xE9))
          (initWorld 18)) = Some (Inr ())"
proof -
  have len: "length (replicate 4096 (0xE9 :: 16 word)) \<le> 4096" by simp
  have "\<not> isHighSurrogate (0xE9 :: 16 word)" by (simp add: isHighSurrogate_def)
  then have "utf8Length (replicate 4096 0xE9) = 4096 * unitBytes 0xE9"
    by (rule utf8Length_replicate)
  then have bytes: "utf8Length (replicate 4096 0xE9) = 8192"
    by (simp add: unitBytes_def)
  then have over: "4096 < utf8Length (replicate 4096 0xE9)" by simp
  have st: "streamError fsOk = None" by (simp add: fsOk_def)
  note a = C10_threshold_counts_code_units
      [of "''/tmp/lsd''" "''20230212162600''" "replicate 4096 0xE9" "initWorld 18" fsOk]
  have A: "\<not> isLargeData (logMessageData ''/tmp/lsd'' ''20230212162600'' (replicate 4096 0xE9))
     \<and> filePath (logMessageData ''/tmp/lsd'' ''20230212162600'' (replicate 4096 0xE9))
         = ''/tmp/lsd'' @ ''/'' @ ''20230212162600'' @ ''.log''
     \<and> \<not> list_ex isFlockCall (newEvents (initWorld 18)
         (snd (writeData fsOk (logMessageData ''/tmp/lsd'' ''20230212162600'' (replicate 4096 0xE9))
                (initWorld 18))))"
    using a len over by blast
  have B: "EvCreateWriteStream (''/tmp/lsd'' @ ''/'' @ ''20230212162600'' @ ''.log'')
        FILE_PERMISSION
       \<in> set (newEvents (initWorld 18)
         (snd (writeData fsOk (logMessageData ''/tmp/lsd'' ''20230212162600'' (replicate 4096 0xE9))
                (initWorld 18))))
     \<and> EvStreamWrite (replicate 4096 0xE9 @ EOL)
       \<in> set (newEvents (initWorld 18)
         (snd (writeData fsOk (logMessageData ''/tmp/lsd'' ''20230212162600'' (replicate 4096 0xE9))
                (initWorld 18))))"
    using a len over by blast
  have C: "fst (writeData fsOk (logMessageData ''/tmp/lsd'' ''20230212162600''
        (replicate 4096 0xE9)) (initWorld 18)) = Some (Inr ())"
    using a len over st by blast
  show ?thesis using A B C len bytes by simp
qed

section \<open>Submitting and retrying\<close>

lemma try_queue: "STORED_MESSAGES (tryToWriteStoredData s) = STORED_MESSAGES s"
  by (simp add: tryToWriteStoredData_def clearInterval_def setTimeout_def split: option.splits)

lemma enqueue_queue: "STORED_MESSAGES (enqueue m s) = STORED_MESSAGES s @ [m]"
  by (simp add: enqueue_def try_queue)

lemma ensureDirectory_frame:
  "STORED_MESSAGES (snd (ensureDirectory e dirPath s)) = STORED_MESSAGES s \<and>
   repeatTimer (snd (ensureDirectory e dirPath s)) = repeatTimer s \<and>
   timers (snd (ensureDirectory e dirPath s)) = timers s \<and>
   nextTimer (snd (ensureDirectory e dirPath s)) = nextTimer s \<and>
   umaskOf (snd (ensureDirectory e dirPath s)) = umaskOf s"
  by (simp add: ensureDirectory_def emit_def split: accessResult.splits option.splits)

lemma writeLog_after_directory:
  "fst (ensureDirectory e dirPath s) = None \<Longrightarrow>
   writeLog e dirPath msg s =
     (let m = logMessageData dirPath (getFileName (hourCycleOf e) (clock e)) msg
      in case writeData (fsRes e) m (snd (ensureDirectory e dirPath s)) of
           (None, s2) \<Rightarrow> (None, s2)
         | (Some (Inr ok), s2) \<Rightarrow> (Some (Inr ()), s2)
         | (Some (Inl logError), s2) \<Rightarrow>
             if code logError = Some FILE_LOCKED then
               (Some (Inr ()), enqueue m (console_error (WritingWarning (filePath m)) s2))
             else (Some (Inl (errMessage logError)), s2))"
  by (cases "ensureDirectory e dirPath s") (simp add: writeLog_def)

text \<open>
  C6. When the directory is there and the write of \<open>writeLog\<close> rejects: with code
  \<open>FILE_LOCKED\<close> the call resolves and the message is pushed at the end of
  \<open>STORED_MESSAGES\<close>; with any other error the call rejects with that error's message
  and \<open>STORED_MESSAGES\<close> is as before.
\<close>

theorem C6_locked_is_queued_other_errors_reject:
  assumes "fst (ensureDirectory e dirPath s) = None"
    and "m = logMessageData dirPath (getFileName (hourCycleOf e) (clock e)) msg"
    and "fst (writeData (fsRes e) m (snd (ensureDirectory e dirPath s))) = Some (Inl err)"
  shows "(code err = Some FILE_LOCKED \<longrightarrow>
            fst (writeLog e dirPath msg s) = Some (Inr ())
            \<and> STORED_MESSAGES (snd (writeLog e dirPath msg s)) = STORED_MESSAGES s @ [m])
       \<and> (code err \<noteq> Some FILE_LOCKED \<longrightarrow>
            fst (writeLog e dirPath msg s) = Some (Inl (errMessage err))
            \<and> STORED_MESSAGES (snd (writeLog e dirPath msg s)) = STORED_MESSAGES s)"
proof -
  define s1 where "s1 = snd (ensureDirectory e dirPath s)"
  have q: "STORED_MESSAGES (snd (writeData (fsRes e) m s1)) = STORED_MESSAGES s"
    by (simp add: wd_frame s1_def ensureDirectory_frame)
  have r: "fst (writeData (fsRes e) m s1) = Some (Inl err)"
    using assms(3) by (simp add: s1_def)
  show ?thesis
    using q r
    by (simp add: writeLog_after_directory [OF assms(1)] assms(2) [symmetric] s1_def [symmetric]
        case_prod_beta enqueue_queue console_error_def)
qed

lemma getFileName_sampleTime: "getFileName H23 sampleTime = ''20230212162600''"
proof -
  have "wallClock sampleTime" "1000 \<le> calYear sampleTime" "calYear sampleTime \<le> 9999"
    by (simp_all add: wallClock_def sampleTime_def)
  then have "getFileName H23 sampleTime = bucketName sampleTime"
    by (rule getFileName_bucketName) simp
  then show ?thesis
    by (simp add: bucketName_def sampleTime_def digitChar_def)
qed

lemma sample_message:
  "logMessageData ''/tmp/lsd'' (getFileName (hourCycleOf (sampleEnv out)) (clock (sampleEnv out)))
     (replicate 4097 120) = bigMsg"
  by (simp add: sampleEnv_def getFileName_sampleTime lmd_large MAX_MESSAGE_SIZE_def bigMsg_def)

lemma sample_directory: "fst (ensureDirectory (sampleEnv out) dirPath s) = None"
  by (simp add: ensureDirectory_def sampleEnv_def)

theorem C6_witness:
  "fst (writeLog (sampleEnv fsLocked) ''/tmp/lsd'' (replicate 4097 120) (initWorld 18))
     = Some (Inr ())
   \<and> STORED_MESSAGES
         (snd (writeLog (sampleEnv fsLocked) ''/tmp/lsd'' (replicate 4097 120) (initWorld 18)))
       = [bigMsg]
   \<and> fst (writeLog (sampleEnv fsOpenFails) ''/tmp/lsd'' (replicate 4097 120) (initWorld 18))
       = Some (Inl (''Can not open file. Error: '' @ dq @ ''EACCES'' @ dq))
   \<and> STORED_MESSAGES
         (snd (writeLog (sampleEnv fsOpenFails) ''/tmp/lsd'' (replicate 4097 120) (initWorld 18)))
       = []"
proof -
  define locked where
    "locked = \<lparr>errMessage = ''Can no lock file '' @ dq @ filePath bigMsg @ dq,
                code = Some FILE_LOCKED\<rparr>"
  define denied where
    "denied = \<lparr>errMessage = ''Can not open file. Error: '' @ dq @ ''EACCES'' @ dq,
                code = None :: ERRORS option\<rparr>"
  have l: "fst (writeData (fsRes (sampleEnv fsLocked)) bigMsg
      (snd (ensureDirectory (sampleEnv fsLocked) ''/tmp/lsd'' (initWorld 18)))) = Some (Inl locked)"
    by (simp add: wd_result wl_result sampleEnv_def fsLocked_def fsOk_def bigMsg_def locked_def)
  have d: "fst (writeData (fsRes (sampleEnv fsOpenFails)) bigMsg
      (snd (ensureDirectory (sampleEnv fsOpenFails) ''/tmp/lsd'' (initWorld 18)))) = Some (Inl denied)"
    by (simp add: wd_result wl_result sampleEnv_def fsOpenFails_def fsOk_def bigMsg_def denied_def)
  note a = C6_locked_is_queued_other_errors_reject
      [OF sample_directory sample_message [symmetric] l]
  note b = C6_locked_is_queued_other_errors_reject
      [OF sample_directory sample_message [symmetric] d]
  have cl: "code locked = Some FILE_LOCKED" by (simp add: locked_def)
  have cd: "code denied \<noteq> Some FILE_LOCKED" by (simp add: denied_def)
  have A: "fst (writeLog (sampleEnv fsLocked) ''/tmp/lsd'' (replicate 4097 120) (initWorld 18))
       = Some (Inr ())
     \<and> STORED_MESSAGES
         (snd (writeLog (sampleEnv fsLocked) ''/tmp/lsd'' (replicate 4097 120) (initWorld 18)))
       = STORED_MESSAGES (initWorld 18) @ [bigMsg]"
    using a cl by blast
  have B: "fst (writeLog (sampleEnv fsOpenFails) ''/tmp/lsd'' (replicate 4097 120) (initWorld 18))
       = Some (Inl (errMessage denied))
     \<and> STORED_MESSAGES
         (snd (writeLog (sampleEnv fsOpenFails) ''/tmp/lsd'' (replicate 4097 120) (initWorld 18)))
       = STORED_MESSAGES (initWorld 18)"
    using b cd by blast
  have q: "STORED_MESSAGES (initWorld 18) = []" by (simp add: initWorld_def)
  show ?thesis using A B by (simp add: q denied_def)
qed

text \<open>
  C2. The mask is restored after a write that succeeds only. At a small message whose
  stream write fails, in a process with mask \<open>0o022\<close>, \<open>writeData\<close> rejects and leaves
  the mask at 0; so it does at a large message whose file is locked, and the call of
  \<open>writeLog\<close> that queues that message resolves with the mask at 0.
\<close>

theorem C2_mask_stays_zero_after_failed_write:
  "umaskOf (initWorld 18) = 18
   \<and> fst (writeData fsStreamFails smallMsg (initWorld 18))
       = Some (Inl \<lparr>errMessage = ''Can no write to file '' @ filePath smallMsg @ ''. Error: ''
                        @ dq @ ''EACCES'' @ dq, code = None\<rparr>)
   \<and> umaskOf (snd (writeData fsStreamFails smallMsg (initWorld 18))) = 0
   \<and> umaskOf (snd (writeData fsLocked bigMsg (initWorld 18))) = 0
   \<and> fst (writeLog (sampleEnv fsLocked) ''/tmp/lsd'' (replicate 4097 120) (initWorld 18))
       = Some (Inr ())
   \<and> umaskOf (snd (writeLog (sampleEnv fsLocked) ''/tmp/lsd'' (replicate 4097 120)
                      (initWorld 18))) = 0
   \<and> umaskOf (snd (writeData fsOk smallMsg (initWorld 18))) = 18"
proof -
  have u: "umaskOf (initWorld 18) = 18" by (simp add: initWorld_def)
  have r: "fst (writeData fsStreamFails smallMsg (initWorld 18))
       = Some (Inl \<lparr>errMessage = ''Can no write to file '' @ filePath smallMsg @ ''. Error: ''
                        @ dq @ ''EACCES'' @ dq, code = None\<rparr>)"
    by (simp add: wd_result wf_result fsStreamFails_def fsOk_def smallMsg_def)
  have m1: "umaskOf (snd (writeData fsStreamFails smallMsg (initWorld 18))) = 0"
    by (simp add: wd_umask r)
  have "fst (writeData fsLocked bigMsg (initWorld 18))
       = Some (Inl \<lparr>errMessage = ''Can no lock file '' @ dq @ filePath bigMsg @ dq,
                        code = Some FILE_LOCKED\<rparr>)"
    by (simp add: wd_result wl_result fsLocked_def fsOk_def bigMsg_def)
  then have m2: "umaskOf (snd (writeData fsLocked bigMsg (initWorld 18))) = 0"
    by (simp add: wd_umask)
  define s1 where "s1 = snd (ensureDirectory (sampleEnv fsLocked) ''/tmp/lsd'' (initWorld 18))"
  have l: "fst (writeData fsLocked bigMsg s1)
       = Some (Inl \<lparr>errMessage = ''Can no lock file '' @ dq @ filePath bigMsg @ dq,
                        code = Some FILE_LOCKED\<rparr>)"
    by (simp add: wd_result wl_result fsLocked_def fsOk_def bigMsg_def)
  then have l0: "umaskOf (snd (writeData fsLocked bigMsg s1)) = 0"
    by (simp add: wd_umask)
  have fr: "fsRes (sampleEnv fsLocked) = fsLocked" by (simp add: sampleEnv_def)
  have wq: "fst (writeLog (sampleEnv fsLocked) ''/tmp/lsd'' (replicate 4097 120) (initWorld 18))
       = Some (Inr ())
     \<and> umaskOf (snd (writeLog (sampleEnv fsLocked) ''/tmp/lsd'' (replicate 4097 120)
                      (initWorld 18))) = 0"
    using l l0
    by (simp add: writeLog_after_directory [OF sample_directory] sample_message fr
        s1_def [symmetric] case_prod_beta enqueue_def tryToWriteStoredData_def setTimeout_def
        clearInterval_def console_error_def split: option.splits)
  have "fst (writeData fsOk smallMsg (initWorld 18)) = Some (Inr ())"
    by (simp add: wd_result wf_result fsOk_def smallMsg_def)
  then have ok: "umaskOf (snd (writeData fsOk smallMsg (initWorld 18))) = 18"
    by (simp add: wd_umask u)
  show ?thesis using u r m1 m2 wq ok by simp
qed

lemma retryEnd_failure:
  "STORED_MESSAGES (retryEnd d (Some (Inl e)) s) = d # STORED_MESSAGES s"
  by (simp add: retryEnd_def console_error_def try_queue)

lemma retryEnd_success:
  "STORED_MESSAGES (retryEnd d (Some (Inr ok)) s) = STORED_MESSAGES s"
  by (simp add: retryEnd_def try_queue)

text \<open>
  C1. The \<open>catch\<close> of the retry callback puts the message back whatever the error is.
  With one large message queued and its timer pending, a tick whose write fails at
  \<open>open\<close> (an error without the code \<open>FILE_LOCKED\<close>) leaves the message at the head
  of the queue, prints the "is locked" diagnostic and schedules the next tick.
\<close>

theorem C1_retry_requeues_after_open_failure:
  "STORED_MESSAGES (enqueue bigMsg (initWorld 18)) = [bigMsg]
   \<and> timers (enqueue bigMsg (initWorld 18)) = [(1, 100)]
   \<and> (\<forall>s. \<exists>e. fst (writeData fsOpenFails bigMsg s) = Some (Inl e) \<and> code e = None)
   \<and> STORED_MESSAGES (fireTimer fsOpenFails 1 (enqueue bigMsg (initWorld 18))) = [bigMsg]
   \<and> console (fireTimer fsOpenFails 1 (enqueue bigMsg (initWorld 18)))
       = [RepeatWriteWarning (filePath bigMsg)]
   \<and> timers (fireTimer fsOpenFails 1 (enqueue bigMsg (initWorld 18))) = [(2, 100)]"
proof -
  define s0 where "s0 = enqueue bigMsg (initWorld 18)"
  have s0: "s0 = (initWorld 18)\<lparr>STORED_MESSAGES := [bigMsg], timers := [(1, 100)],
      nextTimer := 2, repeatTimer := Some 1\<rparr>"
    by (simp add: s0_def enqueue_def tryToWriteStoredData_def setTimeout_def initWorld_def)
  define s1 where "s1 = (initWorld 18)\<lparr>nextTimer := 2\<rparr>"
  have b: "retryBegin (expire 1 s0) = (Some bigMsg, s1)"
    by (simp add: s0 s1_def retryBegin_def expire_def clearInterval_def initWorld_def)
  have e: "\<And>s. fst (writeData fsOpenFails bigMsg s)
      = Some (Inl \<lparr>errMessage = ''Can not open file. Error: '' @ dq @ ''EACCES'' @ dq,
                      code = None\<rparr>)"
    by (simp add: wd_result wl_result fsOpenFails_def fsOk_def bigMsg_def)
  define s2 where "s2 = snd (writeData fsOpenFails bigMsg s1)"
  have f: "STORED_MESSAGES s2 = [] \<and> repeatTimer s2 = None \<and> timers s2 = []
      \<and> nextTimer s2 = 2 \<and> console s2 = []"
    by (simp add: s2_def wd_frame) (simp add: s1_def initWorld_def)
  have fire: "fireTimer fsOpenFails 1 s0 =
      retryEnd bigMsg (Some (Inl \<lparr>errMessage = ''Can not open file. Error: '' @ dq @ ''EACCES'' @ dq,
                      code = None\<rparr>)) s2"
    using b e [of s1]
    by (simp add: fireTimer_def pending_def retryCallback_def case_prod_beta s2_def) (simp add: s0)
  have q: "STORED_MESSAGES (fireTimer fsOpenFails 1 s0) = [bigMsg]"
    unfolding fire by (simp add: retryEnd_failure f)
  have c: "console (fireTimer fsOpenFails 1 s0) = [RepeatWriteWarning (filePath bigMsg)]"
    unfolding fire
    by (simp add: retryEnd_def console_error_def tryToWriteStoredData_def setTimeout_def f)
  have t: "timers (fireTimer fsOpenFails 1 s0) = [(2, 100)]"
    unfolding fire
    by (simp add: retryEnd_def console_error_def tryToWriteStoredData_def setTimeout_def f)
  have a: "\<forall>s. \<exists>e. fst (writeData fsOpenFails bigMsg s) = Some (Inl e) \<and> code e = None"
    using e by simp
  have q0: "STORED_MESSAGES s0 = [bigMsg]" and t0: "timers s0 = [(1, 100)]"
    by (simp_all add: s0)
  show ?thesis
    unfolding s0_def [symmetric] using q0 t0 a q c t by blast
qed

section \<open>The timer invariant\<close>

lemma timerInv_init: "timerInv (initWorld u)"
  by (simp add: timerInv_def initWorld_def)

lemma timerInv_frame:
  "STORED_MESSAGES s' = STORED_MESSAGES s \<Longrightarrow> repeatTimer s' = repeatTimer s \<Longrightarrow>
   timers s' = timers s \<Longrightarrow> timerInv s' = timerInv s"
  by (simp add: timerInv_def)

lemma timerInv_try:
  "timers s = (case repeatTimer s of None \<Rightarrow> [] | Some t \<Rightarrow> [(t, 100)]) \<Longrightarrow>
   timerInv (tryToWriteStoredData s)"
  by (auto simp add: timerInv_def tryToWriteStoredData_def clearInterval_def setTimeout_def
      split: option.splits)

lemma timerInv_enqueue: "timerInv s \<Longrightarrow> timerInv (enqueue m s)"
  unfolding enqueue_def by (rule timerInv_try) (simp add: timerInv_def)

lemma timerInv_writeData: "timerInv (snd (writeData out m s)) = timerInv s"
  by (rule timerInv_frame) (simp_all add: wd_frame)

lemma timerInv_writeLog:
  assumes "timerInv s"
  shows "timerInv (snd (writeLog e dirPath msg s))"
proof (cases "fst (ensureDirectory e dirPath s)")
  case (Some err)
  then have "snd (writeLog e dirPath msg s) = snd (ensureDirectory e dirPath s)"
    by (cases "ensureDirectory e dirPath s") (simp add: writeLog_def)
  moreover have "timerInv (snd (ensureDirectory e dirPath s)) = timerInv s"
    by (rule timerInv_frame) (simp_all add: ensureDirectory_frame)
  ultimately show ?thesis using assms by simp
next
  case None
  define s1 where "s1 = snd (ensureDirectory e dirPath s)"
  define m where "m = logMessageData dirPath (getFileName (hourCycleOf e) (clock e)) msg"
  define s2 where "s2 = snd (writeData (fsRes e) m s1)"
  have "timerInv s1 = timerInv s"
    unfolding s1_def by (rule timerInv_frame) (simp_all add: ensureDirectory_frame)
  then have i2: "timerInv s2"
    using assms by (simp add: s2_def timerInv_writeData)
  have "timerInv (console_error (WritingWarning (filePath m)) s2) = timerInv s2"
    by (rule timerInv_frame) (simp_all add: console_error_def)
  then have i3: "timerInv (enqueue m (console_error (WritingWarning (filePath m)) s2))"
    using i2 by (simp add: timerInv_enqueue)
  show ?thesis
    using i2 i3
    by (simp add: writeLog_after_directory [OF None] m_def [symmetric] s1_def [symmetric]
        case_prod_beta s2_def [symmetric] split: option.splits sum.splits)
qed

lemma pending_timerInv:
  "timerInv s \<Longrightarrow> pending t s \<Longrightarrow>
   repeatTimer s = Some t \<and> timers s = [(t, 100)] \<and> STORED_MESSAGES s \<noteq> []"
  by (auto simp add: timerInv_def pending_def split: option.splits)

lemma retryBegin_pending:
  assumes "timerInv s" "pending t s"
  shows "\<exists>d rest sp. STORED_MESSAGES s = d # rest \<and> retryBegin (expire t s) = (Some d, sp)
      \<and> STORED_MESSAGES sp = rest \<and> repeatTimer sp = None \<and> timers sp = []
      \<and> nextTimer sp = nextTimer s"
proof -
  from pending_timerInv [OF assms]
  have f: "repeatTimer s = Some t" "timers s = [(t, 100)]" "STORED_MESSAGES s \<noteq> []"
    by simp_all
  then obtain d rest where q: "STORED_MESSAGES s = d # rest"
    by (cases "STORED_MESSAGES s") auto
  show ?thesis
    using f q by (simp add: retryBegin_def expire_def clearInterval_def)
qed

lemma timerInv_retryEnd:
  assumes "timerInv s"
  shows "timerInv (retryEnd d r s)"
proof (cases r)
  case None
  then show ?thesis using assms by (simp add: retryEnd_def)
next
  case (Some res)
  have m: "timers s = (case repeatTimer s of None \<Rightarrow> [] | Some t \<Rightarrow> [(t, 100)])"
    using assms by (simp add: timerInv_def)
  show ?thesis
  proof (cases res)
    case (Inl error)
    have "timerInv (tryToWriteStoredData
        ((console_error (RepeatWriteWarning (filePath d)) s)
           \<lparr>STORED_MESSAGES := d # STORED_MESSAGES s\<rparr>))"
      by (rule timerInv_try) (simp add: console_error_def m)
    with Some Inl show ?thesis by (simp add: retryEnd_def console_error_def)
  next
    case (Inr ok)
    have "timerInv (tryToWriteStoredData s)" using m by (rule timerInv_try)
    with Some Inr assms show ?thesis by (simp add: retryEnd_def)
  qed
qed

lemma timerInv_step: "timerInv (fst c) \<Longrightarrow> timerInv (fst (step c a))"
proof (cases c)
  case (Pair s fl)
  assume "timerInv (fst c)"
  with Pair have i: "timerInv s" by simp
  show ?thesis
  proof (cases a)
    case (Submit e dirPath msg)
    with Pair i show ?thesis by (simp add: timerInv_writeLog)
  next
    case (Expire t)
    show ?thesis
    proof (cases "pending t s")
      case True
      from retryBegin_pending [OF i True] obtain d rest sp
        where "retryBegin (expire t s) = (Some d, sp)" "repeatTimer sp = None" "timers sp = []"
        by blast
      with Pair Expire True show ?thesis by (simp add: timerInv_def)
    next
      case False
      with Pair Expire i show ?thesis by simp
    qed
  next
    case (Settle d out)
    have "timerInv (retryEnd d (fst (writeData out d s)) (snd (writeData out d s)))"
      by (rule timerInv_retryEnd) (simp add: timerInv_writeData i)
    with Pair Settle i show ?thesis by (simp add: case_prod_beta)
  qed
qed

lemma timerInv_foldl: "timerInv (fst c) \<Longrightarrow> timerInv (fst (foldl step c acts))"
  by (induction acts arbitrary: c) (simp_all add: timerInv_step)

lemma timerInv_run: "timerInv (fst (run acts u))"
  unfolding run_def by (rule timerInv_foldl) (simp add: timerInv_init)

lemma timerInv_fireTimer:
  assumes "timerInv s"
  shows "timerInv (fireTimer out t s)"
proof (cases "pending t s")
  case False
  then show ?thesis using assms by (simp add: fireTimer_def)
next
  case True
  from retryBegin_pending [OF assms True] obtain d rest sp
    where b: "retryBegin (expire t s) = (Some d, sp)" "repeatTimer sp = None" "timers sp = []"
    by blast
  then have "timerInv sp" by (simp add: timerInv_def)
  then have "timerInv (retryEnd d (fst (writeData out d sp)) (snd (writeData out d sp)))"
    by (intro timerInv_retryEnd) (simp add: timerInv_writeData)
  with True b show ?thesis
    by (simp add: fireTimer_def retryCallback_def case_prod_beta)
qed

section \<open>The retry cycle\<close>

lemma try_pending_noop: "repeatTimer s \<noteq> None \<Longrightarrow> STORED_MESSAGES s \<noteq> [] \<Longrightarrow> tryToWriteStoredData s = s"
  by (simp add: tryToWriteStoredData_def)

lemma try_creates:
  "STORED_MESSAGES s \<noteq> [] \<Longrightarrow> repeatTimer s = None \<Longrightarrow> timers s = [] \<Longrightarrow>
   timers (tryToWriteStoredData s) = [(nextTimer s, 100)]
   \<and> repeatTimer (tryToWriteStoredData s) = Some (nextTimer s)"
  by (simp add: tryToWriteStoredData_def setTimeout_def)

lemma try_clears:
  "STORED_MESSAGES s = [] \<Longrightarrow> timerInv s \<Longrightarrow>
   timers (tryToWriteStoredData s) = [] \<and> repeatTimer (tryToWriteStoredData s) = None"
  by (simp add: tryToWriteStoredData_def clearInterval_def timerInv_def)

lemma timerInv_length: "timerInv s \<Longrightarrow> length (timers s) \<le> 1"
  by (simp add: timerInv_def split: option.splits)

text \<open>
  C7. In every state the module reaches, whatever calls of \<open>writeLog\<close>, timer expiries and
  settled retry writes led there: at most one timer is pending, and one is pending
  exactly when \<open>repeatTimer\<close> is set; \<open>tryToWriteStoredData\<close> changes nothing while
  \<open>repeatTimer\<close> is set; with messages stored and no timer it creates the one timer, for
  100; with nothing stored there is no timer and the handle is clear. The same holds
  after a further enqueue, a further call of \<open>writeLog\<close> and a further retry tick.
\<close>

theorem C7_at_most_one_retry_timer:
  assumes "s = fst (run acts u)"
  shows "length (timers s) \<le> 1
    \<and> (repeatTimer s \<noteq> None) = (timers s \<noteq> [])
    \<and> (repeatTimer s \<noteq> None \<longrightarrow> tryToWriteStoredData s = s)
    \<and> (STORED_MESSAGES s \<noteq> [] \<and> repeatTimer s = None \<longrightarrow>
         timers (tryToWriteStoredData s) = [(nextTimer s, 100)]
         \<and> repeatTimer (tryToWriteStoredData s) = Some (nextTimer s))
    \<and> (STORED_MESSAGES s = [] \<longrightarrow>
         timers s = [] \<and> repeatTimer s = None
         \<and> timers (tryToWriteStoredData s) = [] \<and> repeatTimer (tryToWriteStoredData s) = None)
    \<and> length (timers (enqueue m s)) \<le> 1
    \<and> length (timers (snd (writeLog e dirPath msg s))) \<le> 1
    \<and> length (timers (fireTimer out t s)) \<le> 1"
proof -
  have i: "timerInv s" unfolding assms by (rule timerInv_run)
  have 1: "length (timers s) \<le> 1" using i by (rule timerInv_length)
  have 2: "(repeatTimer s \<noteq> None) = (timers s \<noteq> [])"
    using i by (auto simp add: timerInv_def split: option.splits)
  have 3: "repeatTimer s \<noteq> None \<longrightarrow> tryToWriteStoredData s = s"
    using i by (auto simp add: timerInv_def try_pending_noop)
  have 4: "STORED_MESSAGES s \<noteq> [] \<and> repeatTimer s = None \<longrightarrow>
         timers (tryToWriteStoredData s) = [(nextTimer s, 100)]
         \<and> repeatTimer (tryToWriteStoredData s) = Some (nextTimer s)"
    using i by (auto simp add: timerInv_def try_creates)
  have 5: "STORED_MESSAGES s = [] \<longrightarrow>
         timers s = [] \<and> repeatTimer s = None
         \<and> timers (tryToWriteStoredData s) = [] \<and> repeatTimer (tryToWriteStoredData s) = None"
    using i try_clears [of s] by (auto simp add: timerInv_def)
  have 6: "length (timers (enqueue m s)) \<le> 1"
    using i by (intro timerInv_length timerInv_enqueue)
  have 7: "length (timers (snd (writeLog e dirPath msg s))) \<le> 1"
    using i by (intro timerInv_length timerInv_writeLog)
  have 8: "length (timers (fireTimer out t s)) \<le> 1"
    using i by (intro timerInv_length timerInv_fireTimer)
  show ?thesis using 1 2 3 4 5 6 7 8 by blast
qed

lemma retryEnd_idle:
  assumes "repeatTimer s = None" "timers s = []"
  shows "(STORED_MESSAGES (retryEnd d (Some res) s) \<noteq> [] \<longrightarrow>
            repeatTimer (retryEnd d (Some res) s) = Some (nextTimer s)
            \<and> timers (retryEnd d (Some res) s) = [(nextTimer s, 100)])
       \<and> (STORED_MESSAGES (retryEnd d (Some res) s) = [] \<longrightarrow>
            repeatTimer (retryEnd d (Some res) s) = None \<and> timers (retryEnd d (Some res) s) = [])"
  using assms
  by (cases res)
    (auto simp add: retryEnd_def console_error_def tryToWriteStoredData_def setTimeout_def)

text \<open>
  C8. In every state the module reaches, a pending timer was set for 100. When it expires
  the callback shifts exactly the head of the queue and attempts that one write; the
  queue afterwards is the rest when the write succeeded, and the rest with the message
  back at its head when it failed. After the attempt a timer for 100 is pending if the
  queue is not empty, and otherwise no timer is pending and \<open>repeatTimer\<close> is clear.
  An enqueue appends at the tail.
\<close>

theorem C8_one_message_per_tick:
  assumes "s = fst (run acts u)" and "pending t s"
  shows "timers s = [(t, 100)]
    \<and> (\<exists>d rest sp. STORED_MESSAGES s = d # rest
          \<and> retryBegin (expire t s) = (Some d, sp) \<and> STORED_MESSAGES sp = rest
          \<and> fireTimer out t s
              = retryEnd d (fst (writeData out d sp)) (snd (writeData out d sp))
          \<and> STORED_MESSAGES (fireTimer out t s)
              = (if fst (writeData out d sp) = Some (Inr ()) then rest else d # rest))
    \<and> (STORED_MESSAGES (fireTimer out t s) \<noteq> [] \<longrightarrow>
          repeatTimer (fireTimer out t s) = Some (nextTimer s)
          \<and> timers (fireTimer out t s) = [(nextTimer s, 100)])
    \<and> (STORED_MESSAGES (fireTimer out t s) = [] \<longrightarrow>
          repeatTimer (fireTimer out t s) = None \<and> timers (fireTimer out t s) = [])
    \<and> STORED_MESSAGES (enqueue m s) = STORED_MESSAGES s @ [m]"
proof -
  have i: "timerInv s" unfolding assms(1) by (rule timerInv_run)
  from pending_timerInv [OF i assms(2)] have tm: "timers s = [(t, 100)]" by simp
  from retryBegin_pending [OF i assms(2)] obtain d rest sp
    where q: "STORED_MESSAGES s = d # rest"
      and b: "retryBegin (expire t s) = (Some d, sp)"
      and sp: "STORED_MESSAGES sp = rest" "repeatTimer sp = None" "timers sp = []"
        "nextTimer sp = nextTimer s"
    by blast
  define w where "w = writeData out d sp"
  have fire: "fireTimer out t s = retryEnd d (fst w) (snd w)"
    using assms(2) b by (simp add: fireTimer_def retryCallback_def case_prod_beta w_def)
  obtain res where r: "fst w = Some res"
    using wd_settles [of out d sp] by (auto simp add: w_def)
  have fr: "STORED_MESSAGES (snd w) = rest" "repeatTimer (snd w) = None" "timers (snd w) = []"
    "nextTimer (snd w) = nextTimer s"
    using sp by (simp_all add: w_def wd_frame)
  have queue: "STORED_MESSAGES (fireTimer out t s)
      = (if fst w = Some (Inr ()) then rest else d # rest)"
    unfolding fire r
    by (cases res) (simp_all add: retryEnd_failure retryEnd_success fr)
  from retryEnd_idle [OF fr(2) fr(3), of d res]
  have after: "(STORED_MESSAGES (fireTimer out t s) \<noteq> [] \<longrightarrow>
          repeatTimer (fireTimer out t s) = Some (nextTimer s)
          \<and> timers (fireTimer out t s) = [(nextTimer s, 100)])
    \<and> (STORED_MESSAGES (fireTimer out t s) = [] \<longrightarrow>
          repeatTimer (fireTimer out t s) = None \<and> timers (fireTimer out t s) = [])"
    unfolding fire r by (simp add: fr)
  have "\<exists>d rest sp. STORED_MESSAGES s = d # rest
          \<and> retryBegin (expire t s) = (Some d, sp) \<and> STORED_MESSAGES sp = rest
          \<and> fireTimer out t s
              = retryEnd d (fst (writeData out d sp)) (snd (writeData out d sp))
          \<and> STORED_MESSAGES (fireTimer out t s)
              = (if fst (writeData out d sp) = Some (Inr ()) then rest else d # rest)"
    using q b sp(1) fire queue unfolding w_def by blast
  then show ?thesis
    using tm after by (simp add: enqueue_queue)
qed

section \<open>Sample runs\<close>

lemma submit_locked_state:
  "STORED_MESSAGES (snd (writeLog (sampleEnv fsLocked) ''/tmp/lsd'' (replicate 4097 120) s))
     = STORED_MESSAGES s @ [bigMsg]
   \<and> repeatTimer (snd (writeLog (sampleEnv fsLocked) ''/tmp/lsd'' (replicate 4097 120) s))
     = (case repeatTimer s of None \<Rightarrow> Some (nextTimer s) | Some t \<Rightarrow> Some t)
   \<and> timers (snd (writeLog (sampleEnv fsLocked) ''/tmp/lsd'' (replicate 4097 120) s))
     = (case repeatTimer s of None \<Rightarrow> timers s @ [(nextTimer s, 100)] | Some t \<Rightarrow> timers s)
   \<and> nextTimer (snd (writeLog (sampleEnv fsLocked) ''/tmp/lsd'' (replicate 4097 120) s))
     = (case repeatTimer s of None \<Rightarrow> Suc (nextTimer s) | Some t \<Rightarrow> nextTimer s)"
proof -
  define s1 where "s1 = snd (ensureDirectory (sampleEnv fsLocked) ''/tmp/lsd'' s)"
  define s2 where "s2 = snd (writeData fsLocked bigMsg s1)"
  have l: "fst (writeData fsLocked bigMsg s1)
       = Some (Inl \<lparr>errMessage = ''Can no lock file '' @ dq @ filePath bigMsg @ dq,
                        code = Some FILE_LOCKED\<rparr>)"
    by (simp add: wd_result wl_result fsLocked_def fsOk_def bigMsg_def)
  have f: "STORED_MESSAGES s2 = STORED_MESSAGES s" "repeatTimer s2 = repeatTimer s"
    "timers s2 = timers s" "nextTimer s2 = nextTimer s"
    by (simp_all add: s2_def s1_def wd_frame ensureDirectory_frame)
  have fr: "fsRes (sampleEnv fsLocked) = fsLocked" by (simp add: sampleEnv_def)
  have w: "snd (writeLog (sampleEnv fsLocked) ''/tmp/lsd'' (replicate 4097 120) s)
      = enqueue bigMsg (console_error (WritingWarning (filePath bigMsg)) s2)"
    using l
    by (simp add: writeLog_after_directory [OF sample_directory] sample_message fr
        s1_def [symmetric] case_prod_beta s2_def)
  show ?thesis
    unfolding w
    by (simp add: enqueue_def tryToWriteStoredData_def setTimeout_def clearInterval_def
        console_error_def f split: option.splits)
qed

lemma run_locked_once:
  "STORED_MESSAGES (fst (run [lockedSubmit] 18)) = [bigMsg]
   \<and> repeatTimer (fst (run [lockedSubmit] 18)) = Some 1
   \<and> timers (fst (run [lockedSubmit] 18)) = [(1, 100)]
   \<and> nextTimer (fst (run [lockedSubmit] 18)) = 2"
proof -
  have "fst (run [lockedSubmit] 18)
      = snd (writeLog (sampleEnv fsLocked) ''/tmp/lsd'' (replicate 4097 120) (initWorld 18))"
    by (simp add: run_def lockedSubmit_def)
  then show ?thesis
    by (simp add: submit_locked_state) (simp add: initWorld_def)
qed

lemma run_locked_twice_expire:
  "STORED_MESSAGES (fst (run [lockedSubmit, lockedSubmit, Expire 1] 18)) = [bigMsg]
   \<and> repeatTimer (fst (run [lockedSubmit, lockedSubmit, Expire 1] 18)) = None
   \<and> timers (fst (run [lockedSubmit, lockedSubmit, Expire 1] 18)) = []
   \<and> nextTimer (fst (run [lockedSubmit, lockedSubmit, Expire 1] 18)) = 2"
proof -
  define a where
    "a = snd (writeLog (sampleEnv fsLocked) ''/tmp/lsd'' (replicate 4097 120) (initWorld 18))"
  define b where "b = snd (writeLog (sampleEnv fsLocked) ''/tmp/lsd'' (replicate 4097 120) a)"
  have fa: "STORED_MESSAGES a = [bigMsg]" "repeatTimer a = Some 1" "timers a = [(1, 100)]"
    "nextTimer a = 2"
    unfolding a_def by (simp_all add: submit_locked_state) (simp_all add: initWorld_def)
  have fb: "STORED_MESSAGES b = [bigMsg, bigMsg]" "repeatTimer b = Some 1"
    "timers b = [(1, 100)]" "nextTimer b = 2"
    unfolding b_def by (simp_all add: submit_locked_state fa)
  have p: "pending 1 b" by (simp add: pending_def fb)
  have r: "fst (run [lockedSubmit, lockedSubmit, Expire 1] 18) = snd (retryBegin (expire 1 b))"
    using p
    by (simp add: run_def lockedSubmit_def a_def [symmetric] b_def [symmetric] case_prod_beta
        split: option.splits)
  show ?thesis
    unfolding r by (simp add: retryBegin_def expire_def clearInterval_def fb)
qed

theorem C7_witness:
  "repeatTimer (fst (run [lockedSubmit] 18)) \<noteq> None
   \<and> length (timers (fst (run [lockedSubmit] 18))) \<le> 1
   \<and> tryToWriteStoredData (fst (run [lockedSubmit] 18)) = fst (run [lockedSubmit] 18)
   \<and> STORED_MESSAGES (fst (run [lockedSubmit, lockedSubmit, Expire 1] 18)) \<noteq> []
   \<and> repeatTimer (fst (run [lockedSubmit, lockedSubmit, Expire 1] 18)) = None
   \<and> timers (tryToWriteStoredData (fst (run [lockedSubmit, lockedSubmit, Expire 1] 18)))
       = [(2, 100)]
   \<and> STORED_MESSAGES (fst (run [] 18)) = []
   \<and> timers (fst (run [] 18)) = [] \<and> repeatTimer (fst (run [] 18)) = None"
proof -
  note a = C7_at_most_one_retry_timer [OF refl, of "[lockedSubmit]" 18]
  note b = C7_at_most_one_retry_timer [OF refl, of "[lockedSubmit, lockedSubmit, Expire 1]" 18]
  note c = C7_at_most_one_retry_timer [OF refl, of "[]" 18]
  have pa: "repeatTimer (fst (run [lockedSubmit] 18)) \<noteq> None"
    using run_locked_once by simp
  have pb: "STORED_MESSAGES (fst (run [lockedSubmit, lockedSubmit, Expire 1] 18)) \<noteq> []
      \<and> repeatTimer (fst (run [lockedSubmit, lockedSubmit, Expire 1] 18)) = None"
    using run_locked_twice_expire by simp
  have n: "nextTimer (fst (run [lockedSubmit, lockedSubmit, Expire 1] 18)) = 2"
    using run_locked_twice_expire by simp
  have pc: "STORED_MESSAGES (fst (run [] 18)) = []"
    by (simp add: run_def initWorld_def)
  have A: "length (timers (fst (run [lockedSubmit] 18))) \<le> 1
      \<and> tryToWriteStoredData (fst (run [lockedSubmit] 18)) = fst (run [lockedSubmit] 18)"
    using a pa by blast
  have B: "timers (tryToWriteStoredData (fst (run [lockedSubmit, lockedSubmit, Expire 1] 18)))
       = [(nextTimer (fst (run [lockedSubmit, lockedSubmit, Expire 1] 18)), 100)]"
    using b pb by blast
  have C: "timers (fst (run [] 18)) = [] \<and> repeatTimer (fst (run [] 18)) = None"
    using c pc by blast
  show ?thesis
    using pa pb pc A B C n by simp
qed

theorem C8_witness:
  "pending 1 (fst (run [lockedSubmit] 18))
   \<and> timers (fst (run [lockedSubmit] 18)) = [(1, 100)]
   \<and> STORED_MESSAGES (fst (run [lockedSubmit] 18)) = [bigMsg]
   \<and> STORED_MESSAGES (fireTimer fsOk 1 (fst (run [lockedSubmit] 18))) = []
   \<and> timers (fireTimer fsOk 1 (fst (run [lockedSubmit] 18))) = []
   \<and> repeatTimer (fireTimer fsOk 1 (fst (run [lockedSubmit] 18))) = None
   \<and> STORED_MESSAGES (fireTimer fsLocked 1 (fst (run [lockedSubmit] 18))) = [bigMsg]
   \<and> timers (fireTimer fsLocked 1 (fst (run [lockedSubmit] 18))) = [(2, 100)]
   \<and> STORED_MESSAGES (enqueue smallMsg (fst (run [lockedSubmit] 18))) = [bigMsg, smallMsg]"
proof -
  define s where "s = fst (run [lockedSubmit] 18)"
  have f: "STORED_MESSAGES s = [bigMsg]" "repeatTimer s = Some 1" "timers s = [(1, 100)]"
    "nextTimer s = 2"
    unfolding s_def using run_locked_once by simp_all
  have p: "pending 1 s" by (simp add: pending_def f)
  have ok: "\<And>sp. fst (writeData fsOk bigMsg sp) = Some (Inr ())"
    by (simp add: wd_result wl_result fsOk_def bigMsg_def)
  have lk: "\<And>sp. fst (writeData fsLocked bigMsg sp) \<noteq> Some (Inr ())"
    by (simp add: wd_result wl_result fsLocked_def fsOk_def bigMsg_def)
  note a = C8_one_message_per_tick [OF s_def p, of fsOk smallMsg]
  note b = C8_one_message_per_tick [OF s_def p, of fsLocked smallMsg]
  from a obtain d rest sp where
    "STORED_MESSAGES s = d # rest"
    "STORED_MESSAGES (fireTimer fsOk 1 s)
       = (if fst (writeData fsOk d sp) = Some (Inr ()) then rest else d # rest)"
    by blast
  then have A: "STORED_MESSAGES (fireTimer fsOk 1 s) = []"
    using f ok by simp
  from b obtain d' rest' sp' where
    "STORED_MESSAGES s = d' # rest'"
    "STORED_MESSAGES (fireTimer fsLocked 1 s)
       = (if fst (writeData fsLocked d' sp') = Some (Inr ()) then rest' else d' # rest')"
    by blast
  then have B: "STORED_MESSAGES (fireTimer fsLocked 1 s) = [bigMsg]"
    using f lk by simp
  have A': "repeatTimer (fireTimer fsOk 1 s) = None \<and> timers (fireTimer fsOk 1 s) = []"
    using a A by blast
  have B': "timers (fireTimer fsLocked 1 s) = [(nextTimer s, 100)]"
    using b B by simp
  have E: "STORED_MESSAGES (enqueue smallMsg s) = STORED_MESSAGES s @ [smallMsg]"
    using a by blast
  show ?thesis
    unfolding s_def [symmetric] using p f A A' B B' E by simp
qed

end
